theory Spec2Isabelle
  imports Complex_Main
begin

section \<open>Numbers and vectors\<close>

text \<open>
  The TypeScript type \<open>number\<close> is modelled by \<^typ>\<open>real\<close>: every comparison, sum and
  product of the source is the same operation on the reals; rounding, infinities and NaN
  of IEEE doubles are outside the model.  Counters that the source only ever changes by
  whole steps (\<open>lives\<close>) are \<^typ>\<open>int\<close>.
\<close>

record Vector3 =
  vx :: real
  vy :: real
  vz :: real

text \<open>The operations of \<open>THREE.Vector3\<close> that the game code calls.\<close>

definition vlength :: "Vector3 \<Rightarrow> real" where
  "vlength v = sqrt (vx v * vx v + vy v * vy v + vz v * vz v)"

definition multiplyScalar :: "Vector3 \<Rightarrow> real \<Rightarrow> Vector3" where
  "multiplyScalar v s = \<lparr>vx = vx v * s, vy = vy v * s, vz = vz v * s\<rparr>"

text \<open>\<open>normalize()\<close> is \<open>divideScalar(length() || 1)\<close>: a zero vector stays zero.\<close>

definition normalize :: "Vector3 \<Rightarrow> Vector3" where
  "normalize v = multiplyScalar v (1 / (if vlength v = 0 then 1 else vlength v))"

definition addScaledVector :: "Vector3 \<Rightarrow> Vector3 \<Rightarrow> real \<Rightarrow> Vector3" where
  "addScaledVector a v s = \<lparr>vx = vx a + vx v * s, vy = vy a + vy v * s, vz = vz a + vz v * s\<rparr>"

definition vadd :: "Vector3 \<Rightarrow> Vector3 \<Rightarrow> Vector3" where
  "vadd a b = \<lparr>vx = vx a + vx b, vy = vy a + vy b, vz = vz a + vz b\<rparr>"

definition distanceTo :: "Vector3 \<Rightarrow> Vector3 \<Rightarrow> real" where
  "distanceTo a b =
     sqrt ((vx a - vx b) * (vx a - vx b) + (vy a - vy b) * (vy a - vy b)
           + (vz a - vz b) * (vz a - vz b))"

text \<open>
  \<open>Math.atan2(y, x)\<close>: the angle of the point \<open>(x, y)\<close> in \<open>(-\<pi>, \<pi>]\<close>, and \<open>0\<close> at the
  origin (signed zeros are not distinguished).
\<close>

definition atan2 :: "real \<Rightarrow> real \<Rightarrow> real" where
  "atan2 y x =
     (if 0 < x then arctan (y / x)
      else if x < 0 then (if 0 \<le> y then arctan (y / x) + pi else arctan (y / x) - pi)
      else if 0 < y then pi / 2
      else if y < 0 then - (pi / 2)
      else 0)"

section \<open>The input facade\<close>

text \<open>
  What \<open>CowboyPlayer.handleInput\<close> reads from \<open>engine.input\<close> and \<open>engine.mobileInput\<close>
  during one tick: \<open>isMobileControlsActive()\<close>, \<open>getJoystickVector()\<close>,
  \<open>isKeyPressed\<close> of the five keys, \<open>isJumpPressed()\<close>, \<open>isPointerLocked()\<close>,
  \<open>getMouseDelta()\<close> and \<open>getCameraDelta()\<close>.
\<close>

record InputSnapshot =
  isMobile :: bool
  joystickX :: real
  joystickY :: real
  keyW :: bool
  keyS :: bool
  keyA :: bool
  keyD :: bool
  keySpace :: bool
  jumpPressed :: bool
  pointerLocked :: bool
  mouseDeltaX :: real
  mouseDeltaY :: real
  touchDeltaX :: real
  touchDeltaY :: real

section \<open>CowboyPlayer\<close>

record CowboyPlayer =
  position :: Vector3
  velocity :: Vector3
  rotation :: real
  onGround :: bool
  lives :: int
  cameraRotationY :: real
  cameraRotationX :: real
  damageCooldown :: real
  cameraPosition :: Vector3

definition speed :: real where "speed = 0.12"
definition jumpForce :: real where "jumpForce = 0.4"
definition gravity :: real where "gravity = - 0.015"
definition groundY :: real where "groundY = 0.3"
definition cameraDistance :: real where "cameraDistance = 8"
definition cameraHeight :: real where "cameraHeight = 4"
definition damageCooldownTime :: real where "damageCooldownTime = 1.0"

text \<open>
  The camera offset of \<open>updateCamera\<close>, added to the player position and kept at or
  above \<open>0.5\<close>.
\<close>

definition cameraOffset :: "real \<Rightarrow> real \<Rightarrow> Vector3" where
  "cameraOffset rotY rotX =
     \<lparr>vx = sin rotY * cos rotX * cameraDistance,
      vy = sin rotX * cameraDistance + cameraHeight,
      vz = cos rotY * cos rotX * cameraDistance\<rparr>"

definition updateCamera :: "CowboyPlayer \<Rightarrow> CowboyPlayer" where
  "updateCamera p =
     (let c = vadd (position p) (cameraOffset (cameraRotationY p) (cameraRotationX p))
      in p\<lparr>cameraPosition := (if vy c < 0.5 then c\<lparr>vy := 0.5\<rparr> else c)\<rparr>)"

text \<open>The state a new \<open>CowboyPlayer\<close> has once the first \<open>updateCamera\<close> has not yet run.\<close>

definition newCowboyPlayer :: CowboyPlayer where
  "newCowboyPlayer =
     \<lparr>position = \<lparr>vx = 0, vy = groundY, vz = 0\<rparr>,
      velocity = \<lparr>vx = 0, vy = 0, vz = 0\<rparr>,
      rotation = 0, onGround = False, lives = 3,
      cameraRotationY = 0, cameraRotationX = 0.3,
      damageCooldown = 0,
      cameraPosition = \<lparr>vx = 0, vy = 5, vz = 10\<rparr>\<rparr>"

subsection \<open>handleInput\<close>

text \<open>The three parts of \<open>handleInput\<close>, in the order of the source.\<close>

definition moveDirectionOf :: "InputSnapshot \<Rightarrow> Vector3" where
  "moveDirectionOf inp =
     (if isMobile inp then \<lparr>vx = joystickX inp, vy = 0, vz = joystickY inp\<rparr>
      else \<lparr>vx = 0 - (if keyA inp then 1 else 0) + (if keyD inp then 1 else 0),
            vy = 0,
            vz = 0 + (if keyW inp then 1 else 0) - (if keyS inp then 1 else 0)\<rparr>)"

definition applyMovement :: "InputSnapshot \<Rightarrow> CowboyPlayer \<Rightarrow> CowboyPlayer" where
  "applyMovement inp p =
     (if vlength (moveDirectionOf inp) > 0 then
        (let moveDirection = normalize (moveDirectionOf inp);
             angle = cameraRotationY p;
             forward = \<lparr>vx = - sin angle, vy = 0, vz = - cos angle\<rparr>;
             right = \<lparr>vx = cos angle, vy = 0, vz = - sin angle\<rparr>;
             worldMoveDirection =
               normalize (addScaledVector
                 (addScaledVector \<lparr>vx = 0, vy = 0, vz = 0\<rparr> forward (vz moveDirection))
                 right (vx moveDirection))
         in p\<lparr>position := (position p)
                  \<lparr>vx := vx (position p) + vx worldMoveDirection * speed,
                   vz := vz (position p) + vz worldMoveDirection * speed\<rparr>,
               rotation := atan2 (vx worldMoveDirection) (vz worldMoveDirection)\<rparr>)
      else p)"

definition shouldJump :: "InputSnapshot \<Rightarrow> bool" where
  "shouldJump inp = (if isMobile inp then jumpPressed inp else keySpace inp)"

definition applyJump :: "InputSnapshot \<Rightarrow> CowboyPlayer \<Rightarrow> CowboyPlayer" where
  "applyJump inp p =
     (if shouldJump inp \<and> onGround p
      then p\<lparr>velocity := (velocity p)\<lparr>vy := jumpForce\<rparr>, onGround := False\<rparr>
      else p)"

definition clampPitch :: "real \<Rightarrow> real" where
  "clampPitch a = max (- pi / 3) (min (pi / 3) a)"

definition applyCameraControl :: "InputSnapshot \<Rightarrow> CowboyPlayer \<Rightarrow> CowboyPlayer" where
  "applyCameraControl inp p =
     (if isMobile inp then
        p\<lparr>cameraRotationY := cameraRotationY p - touchDeltaX inp * 0.005,
          cameraRotationX := clampPitch (cameraRotationX p - touchDeltaY inp * 0.005)\<rparr>
      else if pointerLocked inp then
        p\<lparr>cameraRotationY := cameraRotationY p - mouseDeltaX inp * 0.002,
          cameraRotationX := clampPitch (cameraRotationX p - mouseDeltaY inp * 0.002)\<rparr>
      else p)"

definition handleInput :: "InputSnapshot \<Rightarrow> CowboyPlayer \<Rightarrow> CowboyPlayer" where
  "handleInput inp p = applyCameraControl inp (applyJump inp (applyMovement inp p))"

subsection \<open>Physics, ground collision, the tick\<close>

definition applyPhysics :: "CowboyPlayer \<Rightarrow> CowboyPlayer" where
  "applyPhysics p =
     (let v = vy (velocity p) + gravity
      in p\<lparr>velocity := (velocity p)\<lparr>vy := v\<rparr>,
           position := (position p)\<lparr>vy := vy (position p) + v\<rparr>\<rparr>)"

definition checkGroundCollision :: "CowboyPlayer \<Rightarrow> CowboyPlayer" where
  "checkGroundCollision p =
     (if vy (position p) \<le> groundY
      then p\<lparr>position := (position p)\<lparr>vy := groundY\<rparr>,
             velocity := (velocity p)\<lparr>vy := 0\<rparr>,
             onGround := True\<rparr>
      else p\<lparr>onGround := False\<rparr>)"

definition tickCooldown :: "real \<Rightarrow> CowboyPlayer \<Rightarrow> CowboyPlayer" where
  "tickCooldown deltaTime p =
     (if damageCooldown p > 0 then p\<lparr>damageCooldown := damageCooldown p - deltaTime\<rparr> else p)"

text \<open>
  \<open>CowboyPlayer.update\<close>.  \<open>updateMesh\<close> only copies position and rotation to the scene
  graph and is left out.
\<close>

definition update :: "real \<Rightarrow> InputSnapshot \<Rightarrow> CowboyPlayer \<Rightarrow> CowboyPlayer" where
  "update deltaTime inp p =
     updateCamera (checkGroundCollision (applyPhysics (handleInput inp (tickCooldown deltaTime p))))"

subsection \<open>takeDamage\<close>

text \<open>The red flash and its timer touch only the body material and are left out.\<close>

definition takeDamage :: "CowboyPlayer \<Rightarrow> CowboyPlayer" where
  "takeDamage p =
     (if damageCooldown p \<le> 0 \<and> lives p > 0
      then p\<lparr>lives := lives p - 1, damageCooldown := damageCooldownTime\<rparr>
      else p)"

text \<open>A history of the player: ticks with their inputs, and \<open>takeDamage()\<close> calls.\<close>

datatype Event = Tick real InputSnapshot | Damage

fun step :: "Event \<Rightarrow> CowboyPlayer \<Rightarrow> CowboyPlayer" where
  "step (Tick deltaTime inp) p = update deltaTime inp p"
| "step Damage p = takeDamage p"

fun run :: "Event list \<Rightarrow> CowboyPlayer \<Rightarrow> CowboyPlayer" where
  "run [] p = p"
| "run (e # es) p = run es (step e p)"

text \<open>An input snapshot with nothing pressed and nothing moved, on the desktop.\<close>

definition noInput :: InputSnapshot where
  "noInput =
     \<lparr>isMobile = False, joystickX = 0, joystickY = 0,
      keyW = False, keyS = False, keyA = False, keyD = False, keySpace = False,
      jumpPressed = False, pointerLocked = False,
      mouseDeltaX = 0, mouseDeltaY = 0, touchDeltaX = 0, touchDeltaY = 0\<rparr>"

text \<open>Every tick of a history has a \<open>deltaTime\<close> between \<open>0\<close> and \<open>D\<close>.\<close>

fun ticksWithin :: "real \<Rightarrow> Event list \<Rightarrow> bool" where
  "ticksWithin D [] = True"
| "ticksWithin D (Tick deltaTime inp # es) = (0 \<le> deltaTime \<and> deltaTime \<le> D \<and> ticksWithin D es)"
| "ticksWithin D (Damage # es) = ticksWithin D es"

text \<open>The simulated time that passes in a history: the sum of its ticks' \<open>deltaTime\<close>.\<close>

fun elapsedTime :: "Event list \<Rightarrow> real" where
  "elapsedTime [] = 0"
| "elapsedTime (Tick deltaTime inp # es) = deltaTime + elapsedTime es"
| "elapsedTime (Damage # es) = elapsedTime es"

text \<open>A history of ticks only, none with a jump input.\<close>

fun noJumpTicks :: "Event list \<Rightarrow> bool" where
  "noJumpTicks [] = True"
| "noJumpTicks (Tick deltaTime inp # es) = (\<not> shouldJump inp \<and> noJumpTicks es)"
| "noJumpTicks (Damage # es) = False"

text \<open>A number of ticks after which a fall from rest at height \<open>h\<close> has ended.\<close>

definition settleTicks :: "real \<Rightarrow> nat" where
  "settleTicks h = nat \<lceil>(h - groundY) / (- gravity)\<rceil>"

text \<open>The resting state on the ground plane.\<close>

definition grounded :: "CowboyPlayer \<Rightarrow> bool" where
  "grounded p = (vy (position p) = groundY \<and> vy (velocity p) = 0 \<and> onGround p)"

text \<open>
  The height lost after \<open>k\<close> ticks of free fall from rest: gravity is added to the
  velocity before the velocity is added to the height.
\<close>

definition fallen :: "nat \<Rightarrow> real" where
  "fallen k = - gravity * (real k * (real k + 1) / 2)"

text \<open>Still in the air after \<open>k\<close> ticks of a fall from rest at height \<open>h\<close>.\<close>

definition falling :: "real \<Rightarrow> nat \<Rightarrow> CowboyPlayer \<Rightarrow> bool" where
  "falling h k p =
     (vy (velocity p) = gravity * real k \<and> vy (position p) = h - fallen k
      \<and> groundY < vy (position p))"

section \<open>Cacti: Choya and BarrelCactus\<close>

text \<open>
  Both classes have the same fields.  \<open>mesh\<close> is \<open>None\<close> until the model has been
  loaded; the sway that \<open>update\<close> writes to \<open>mesh.rotation.z\<close> is read by nothing and
  is left out.
\<close>

record CactusMesh =
  meshPosition :: Vector3
  meshScale :: real

record Cactus =
  mesh :: "CactusMesh option"
  cactusPosition :: Vector3
  cactusSize :: real
  collisionRadius :: real
  modelLoaded :: bool

text \<open>The constructors, with the size multiplier given (the source draws it when absent).\<close>

definition newChoya :: "Vector3 \<Rightarrow> real \<Rightarrow> Cactus" where
  "newChoya pos sz =
     \<lparr>mesh = None, cactusPosition = pos, cactusSize = sz, collisionRadius = 1.2,
      modelLoaded = False\<rparr>"

definition newBarrelCactus :: "Vector3 \<Rightarrow> real \<Rightarrow> Cactus" where
  "newBarrelCactus pos sz =
     \<lparr>mesh = None, cactusPosition = pos, cactusSize = sz, collisionRadius = 0.6,
      modelLoaded = False\<rparr>"

text \<open>What \<open>loadModel\<close> does once \<open>loadAsync\<close> has resolved.\<close>

definition Choya_loadModel :: "Cactus \<Rightarrow> Cactus" where
  "Choya_loadModel c =
     c\<lparr>mesh := Some \<lparr>meshPosition = \<lparr>vx = vx (cactusPosition c), vy = 0, vz = vz (cactusPosition c)\<rparr>,
                      meshScale = cactusSize c\<rparr>,
       collisionRadius := 1.2 * cactusSize c,
       modelLoaded := True\<rparr>"

definition BarrelCactus_loadModel :: "Cactus \<Rightarrow> Cactus" where
  "BarrelCactus_loadModel c =
     c\<lparr>mesh := Some \<lparr>meshPosition = \<lparr>vx = vx (cactusPosition c), vy = 0, vz = vz (cactusPosition c)\<rparr>,
                      meshScale = cactusSize c\<rparr>,
       collisionRadius := 0.6 * cactusSize c,
       modelLoaded := True\<rparr>"

definition Choya_checkCollision :: "Cactus \<Rightarrow> Vector3 \<Rightarrow> real \<Rightarrow> bool" where
  "Choya_checkCollision c playerPosition playerRadius =
     (case mesh c of
        None \<Rightarrow> False
      | Some m \<Rightarrow>
          if \<not> modelLoaded c then False
          else
            (let choyaWorldPos =
                   \<lparr>vx = vx (meshPosition m), vy = vy (meshPosition m) + 0.6,
                    vz = vz (meshPosition m)\<rparr>;
                 distance = distanceTo choyaWorldPos playerPosition;
                 collisionDistance = collisionRadius c + playerRadius
             in distance < collisionDistance))"

definition BarrelCactus_checkCollision :: "Cactus \<Rightarrow> Vector3 \<Rightarrow> real \<Rightarrow> bool" where
  "BarrelCactus_checkCollision c playerPosition playerRadius =
     (case mesh c of
        None \<Rightarrow> False
      | Some m \<Rightarrow>
          if \<not> modelLoaded c then False
          else
            (let cactusWorldPos =
                   \<lparr>vx = vx (meshPosition m), vy = vy (meshPosition m) + 0.3 * cactusSize c,
                    vz = vz (meshPosition m)\<rparr>;
                 distance = distanceTo cactusWorldPos playerPosition;
                 collisionDistance = collisionRadius c + playerRadius
             in distance < collisionDistance))"

section \<open>Animals: Horse, Cow and Chicken\<close>

text \<open>
  The three classes keep the same wander state.  Their \<open>update\<close> methods differ only in
  the threshold of the timer and in the speed, and each draws \<open>Math.random()\<close> for the
  threshold (\<open>r1\<close>) and, when the timer has passed it, for the new heading (\<open>r2\<close>).
  Leg and tail animation are left out.
\<close>

record Animal =
  animalPosition :: Vector3
  wanderDirection :: real
  wanderTimer :: real

definition maxDistance :: real where "maxDistance = 80"

text \<open>The timer block of \<open>update\<close>: past the threshold \<open>lo + r1 * width\<close>, turn and reset.\<close>

definition wanderTurn :: "real \<Rightarrow> real \<Rightarrow> real \<Rightarrow> real \<Rightarrow> real \<Rightarrow> Animal \<Rightarrow> Animal" where
  "wanderTurn lo width deltaTime r1 r2 a =
     (let timer = wanderTimer a + deltaTime
      in if timer > lo + r1 * width
         then a\<lparr>wanderDirection := r2 * pi * 2, wanderTimer := 0\<rparr>
         else a\<lparr>wanderTimer := timer\<rparr>)"

text \<open>The rest of \<open>update\<close>: move along the heading, then turn back when out of bounds.\<close>

definition wanderMove :: "real \<Rightarrow> Animal \<Rightarrow> Animal" where
  "wanderMove v a =
     (let x = vx (animalPosition a) + sin (wanderDirection a) * v;
          z = vz (animalPosition a) + cos (wanderDirection a) * v;
          distanceFromOrigin = sqrt (x ^ 2 + z ^ 2)
      in a\<lparr>animalPosition := (animalPosition a)\<lparr>vx := x, vz := z\<rparr>,
           wanderDirection :=
             (if distanceFromOrigin > maxDistance then atan2 (- x) (- z)
              else wanderDirection a)\<rparr>)"

definition Horse_update :: "real \<Rightarrow> real \<Rightarrow> real \<Rightarrow> Animal \<Rightarrow> Animal" where
  "Horse_update deltaTime r1 r2 a = wanderMove 0.02 (wanderTurn 3 4 deltaTime r1 r2 a)"

definition Cow_update :: "real \<Rightarrow> real \<Rightarrow> real \<Rightarrow> Animal \<Rightarrow> Animal" where
  "Cow_update deltaTime r1 r2 a = wanderMove 0.01 (wanderTurn 4 5 deltaTime r1 r2 a)"

definition Chicken_update :: "real \<Rightarrow> real \<Rightarrow> real \<Rightarrow> Animal \<Rightarrow> Animal" where
  "Chicken_update deltaTime r1 r2 a = wanderMove 0.015 (wanderTurn 1 2 deltaTime r1 r2 a)"

text \<open>Two sample animals, one outside the bounds and one inside.\<close>

definition farAnimal :: Animal where
  "farAnimal = \<lparr>animalPosition = \<lparr>vx = 100, vy = 0, vz = 0\<rparr>, wanderDirection = 0, wanderTimer = 0\<rparr>"

definition nearAnimal :: Animal where
  "nearAnimal = \<lparr>animalPosition = \<lparr>vx = 5, vy = 0, vz = 8\<rparr>, wanderDirection = 0, wanderTimer = 2.5\<rparr>"

section \<open>RanchGame\<close>

text \<open>
  A spine mesh is an object shared by the player's mesh (its parent while attached) and
  by the \<open>activeSpines\<close> entry that ages it, so the meshes live in a store and are named
  by their index in it.  A mesh is created at the end of the store.
\<close>

record SpineMesh =
  attached :: bool
  disposed :: bool
  opacity :: real

record SpineData =
  spineMesh :: nat
  startTime :: real
  fadeDuration :: real

datatype LivesUI = Vidas int | GameOver

record RanchGame =
  player :: CowboyPlayer
  choyas :: "Cactus list"
  barrelCacti :: "Cactus list"
  horses :: "Animal list"
  cows :: "Animal list"
  chickens :: "Animal list"
  livesUI :: LivesUI
  activeSpines :: "SpineData list"
  spineMeshes :: "SpineMesh list"

text \<open>
  What one tick reads from outside the game: the input snapshot, the value of
  \<open>Date.now()\<close> and of \<open>Math.random()\<close> in the collision branch of the \<open>i\<close>-th choya and
  barrel cactus, \<open>Date.now()\<close> before the spines are aged, and the two draws of each animal.
\<close>

record TickEnv =
  envInput :: InputSnapshot
  choyaRandom :: "nat \<Rightarrow> real"
  choyaNow :: "nat \<Rightarrow> real"
  barrelRandom :: "nat \<Rightarrow> real"
  barrelNow :: "nat \<Rightarrow> real"
  agingNow :: real
  horseRandom :: "nat \<Rightarrow> real \<times> real"
  cowRandom :: "nat \<Rightarrow> real \<times> real"
  chickenRandom :: "nat \<Rightarrow> real \<times> real"

definition getRadius :: real where "getRadius = 0.4"

definition updateLivesUI :: "RanchGame \<Rightarrow> RanchGame" where
  "updateLivesUI g =
     g\<lparr>livesUI := (if lives (player g) \<le> 0 then GameOver else Vidas (lives (player g)))\<rparr>"

text \<open>\<open>createSpineEffect\<close>: the number of spines, and the new meshes added to the player.\<close>

definition Choya_spineCount :: "real \<Rightarrow> nat" where
  "Choya_spineCount r = 3 + nat \<lfloor>r * 3\<rfloor>"

definition BarrelCactus_spineCount :: "real \<Rightarrow> nat" where
  "BarrelCactus_spineCount r = 1 + nat \<lfloor>r * 2\<rfloor>"

definition createSpineEffect :: "nat \<Rightarrow> SpineMesh list \<Rightarrow> nat list \<times> SpineMesh list" where
  "createSpineEffect spineCount store =
     ([length store ..< length store + spineCount],
      store @ replicate spineCount \<lparr>attached = True, disposed = False, opacity = 1.0\<rparr>)"

text \<open>The body of the collision branch, the same for both kinds of cactus.\<close>

definition hitByCactus :: "nat \<Rightarrow> real \<Rightarrow> RanchGame \<Rightarrow> RanchGame" where
  "hitByCactus spineCount now g =
     (let g1 = updateLivesUI (g\<lparr>player := takeDamage (player g)\<rparr>);
          created = createSpineEffect spineCount (spineMeshes g1)
      in g1\<lparr>spineMeshes := snd created,
            activeSpines := activeSpines g1
              @ map (\<lambda>m. \<lparr>spineMesh = m, startTime = now, fadeDuration = 3000\<rparr>) (fst created)\<rparr>)"

fun choyaLoop :: "TickEnv \<Rightarrow> nat \<Rightarrow> Cactus list \<Rightarrow> RanchGame \<Rightarrow> RanchGame" where
  "choyaLoop env i [] g = g"
| "choyaLoop env i (choya # rest) g =
     choyaLoop env (Suc i) rest
       (if Choya_checkCollision choya (position (player g)) getRadius
        then hitByCactus (Choya_spineCount (choyaRandom env i)) (choyaNow env i) g
        else g)"

fun barrelLoop :: "TickEnv \<Rightarrow> nat \<Rightarrow> Cactus list \<Rightarrow> RanchGame \<Rightarrow> RanchGame" where
  "barrelLoop env i [] g = g"
| "barrelLoop env i (barrelCactus # rest) g =
     barrelLoop env (Suc i) rest
       (if BarrelCactus_checkCollision barrelCactus (position (player g)) getRadius
        then hitByCactus (BarrelCactus_spineCount (barrelRandom env i)) (barrelNow env i) g
        else g)"

text \<open>
  The first part of \<open>RanchGame.update\<close>: the player, then the two cactus loops.  The
  \<open>update\<close> of a cactus only sways its mesh and is left out.
\<close>

definition hazardPhase :: "real \<Rightarrow> TickEnv \<Rightarrow> RanchGame \<Rightarrow> RanchGame" where
  "hazardPhase deltaTime env g =
     (let g1 = g\<lparr>player := update deltaTime (envInput env) (player g)\<rparr>;
          g2 = choyaLoop env 0 (choyas g1) g1
      in barrelLoop env 0 (barrelCacti g2) g2)"

text \<open>
  The aging loop runs \<open>i\<close> from \<open>length - 1\<close> down to \<open>0\<close>; the first argument of
  \<open>ageSpines\<close> is \<open>i + 1\<close>.  An expired spine is removed from the player's mesh, disposed
  and spliced out of the list; the others get their new opacity.  A splice at \<open>i\<close> leaves
  the entries below \<open>i\<close> in place, so \<open>i\<close> stays below the length of the list and
  \<open>spines ! i\<close> is the entry the source reads.
\<close>

definition releaseSpine :: "SpineData \<Rightarrow> SpineMesh list \<Rightarrow> SpineMesh list" where
  "releaseSpine spineData store =
     store[spineMesh spineData :=
       (store ! spineMesh spineData)\<lparr>attached := False, disposed := True\<rparr>]"

definition fadeSpine :: "real \<Rightarrow> SpineData \<Rightarrow> SpineMesh list \<Rightarrow> SpineMesh list" where
  "fadeSpine elapsed spineData store =
     store[spineMesh spineData :=
       (store ! spineMesh spineData)\<lparr>opacity := 1.0 - elapsed / fadeDuration spineData\<rparr>]"

fun ageSpines :: "real \<Rightarrow> nat \<Rightarrow> SpineMesh list \<times> SpineData list
    \<Rightarrow> SpineMesh list \<times> SpineData list" where
  "ageSpines now 0 (store, spines) = (store, spines)"
| "ageSpines now (Suc i) (store, spines) =
     (let spineData = spines ! i;
          elapsed = now - startTime spineData
      in if elapsed \<ge> fadeDuration spineData
         then ageSpines now i (releaseSpine spineData store, take i spines @ drop (Suc i) spines)
         else ageSpines now i (fadeSpine elapsed spineData store, spines))"

definition agingPhase :: "real \<Rightarrow> RanchGame \<Rightarrow> RanchGame" where
  "agingPhase now g =
     (let aged = ageSpines now (length (activeSpines g)) (spineMeshes g, activeSpines g)
      in g\<lparr>spineMeshes := fst aged, activeSpines := snd aged\<rparr>)"

text \<open>The three animal loops, each animal with its own two draws.\<close>

fun updateAll :: "(real \<Rightarrow> real \<Rightarrow> Animal \<Rightarrow> Animal) \<Rightarrow> (nat \<Rightarrow> real \<times> real) \<Rightarrow> nat
    \<Rightarrow> Animal list \<Rightarrow> Animal list" where
  "updateAll f rnd i [] = []"
| "updateAll f rnd i (a # rest) = f (fst (rnd i)) (snd (rnd i)) a # updateAll f rnd (Suc i) rest"

definition animalPhase :: "real \<Rightarrow> TickEnv \<Rightarrow> RanchGame \<Rightarrow> RanchGame" where
  "animalPhase deltaTime env g =
     g\<lparr>horses := updateAll (Horse_update deltaTime) (horseRandom env) 0 (horses g),
       cows := updateAll (Cow_update deltaTime) (cowRandom env) 0 (cows g),
       chickens := updateAll (Chicken_update deltaTime) (chickenRandom env) 0 (chickens g)\<rparr>"

definition RanchGame_update :: "real \<Rightarrow> TickEnv \<Rightarrow> RanchGame \<Rightarrow> RanchGame" where
  "RanchGame_update deltaTime env g =
     animalPhase deltaTime env (agingPhase (agingNow env) (hazardPhase deltaTime env g))"

text \<open>\<open>RanchGame.dispose\<close>, as far as the spines go.\<close>

definition RanchGame_dispose :: "RanchGame \<Rightarrow> RanchGame" where
  "RanchGame_dispose g =
     g\<lparr>spineMeshes := fold releaseSpine (activeSpines g) (spineMeshes g), activeSpines := []\<rparr>"

text \<open>The number of cacti whose \<open>checkCollision\<close> holds for a player at \<open>pos\<close>.\<close>

definition collidingHazards :: "Vector3 \<Rightarrow> RanchGame \<Rightarrow> nat" where
  "collidingHazards pos g =
     length (filter (\<lambda>c. Choya_checkCollision c pos getRadius) (choyas g))
     + length (filter (\<lambda>c. BarrelCactus_checkCollision c pos getRadius) (barrelCacti g))"

text \<open>A sample game: the player stands inside a loaded choya and a loaded barrel cactus.\<close>

definition sampleEnv :: TickEnv where
  "sampleEnv =
     \<lparr>envInput = noInput,
      choyaRandom = (\<lambda>i. 0.5), choyaNow = (\<lambda>i. 3500),
      barrelRandom = (\<lambda>i. 0.5), barrelNow = (\<lambda>i. 3500),
      agingNow = 3500,
      horseRandom = (\<lambda>i. (0.5, 0.5)), cowRandom = (\<lambda>i. (0.5, 0.5)),
      chickenRandom = (\<lambda>i. (0.5, 0.5))\<rparr>"

definition sampleGame :: RanchGame where
  "sampleGame =
     \<lparr>player = newCowboyPlayer\<lparr>position := \<lparr>vx = 10, vy = 0.3, vz = 5\<rparr>\<rparr>,
      choyas = [Choya_loadModel (newChoya \<lparr>vx = 10, vy = 0, vz = 5\<rparr> 0.35),
                newChoya \<lparr>vx = 10, vy = 0, vz = 5\<rparr> 0.35],
      barrelCacti = [BarrelCactus_loadModel (newBarrelCactus \<lparr>vx = 10, vy = 0, vz = 5.2\<rparr> 0.05)],
      horses = [nearAnimal], cows = [], chickens = [farAnimal],
      livesUI = Vidas 3,
      activeSpines = [\<lparr>spineMesh = 0, startTime = 0, fadeDuration = 3000\<rparr>,
                      \<lparr>spineMesh = 1, startTime = 2000, fadeDuration = 3000\<rparr>],
      spineMeshes = [\<lparr>attached = True, disposed = False, opacity = 1\<rparr>,
                     \<lparr>attached = True, disposed = False, opacity = 1\<rparr>]\<rparr>"

text \<open>
  Every active spine names a mesh of its own in the store.  This holds of a game without
  spines and is kept by every tick.
\<close>

definition spinesWellFormed :: "RanchGame \<Rightarrow> bool" where
  "spinesWellFormed g =
     (distinct (map spineMesh (activeSpines g))
      \<and> (\<forall>spineData \<in> set (activeSpines g). spineMesh spineData < length (spineMeshes g)))"

text \<open>What one pass of the aging loop does to the mesh of one spine.\<close>

definition ageMesh :: "real \<Rightarrow> SpineData \<Rightarrow> SpineMesh list \<Rightarrow> SpineMesh list" where
  "ageMesh now spineData store =
     (if now - startTime spineData \<ge> fadeDuration spineData then releaseSpine spineData store
      else fadeSpine (now - startTime spineData) spineData store)"

section \<open>Lemmas\<close>

subsection \<open>Lives and cooldown along a history\<close>

lemmas tick_defs = update_def updateCamera_def checkGroundCollision_def applyPhysics_def
  handleInput_def applyCameraControl_def applyJump_def applyMovement_def tickCooldown_def

lemma lives_update [simp]: "lives (update deltaTime inp p) = lives p"
  by (simp add: update_def updateCamera_def checkGroundCollision_def applyPhysics_def
      handleInput_def applyCameraControl_def applyJump_def applyMovement_def tickCooldown_def
      Let_def)

lemma lives_takeDamage_nonneg: "0 \<le> lives p \<Longrightarrow> 0 \<le> lives (takeDamage p)"
  by (simp add: takeDamage_def)

lemma lives_takeDamage_dead: "lives p = 0 \<Longrightarrow> lives (takeDamage p) = 0"
  by (simp add: takeDamage_def)

lemma lives_run_nonneg: "0 \<le> lives p \<Longrightarrow> 0 \<le> lives (run es p)"
proof (induction es arbitrary: p)
  case Nil
  then show ?case by simp
next
  case (Cons e es)
  have "0 \<le> lives (step e p)"
    using Cons.prems by (cases e) (simp_all add: lives_takeDamage_nonneg)
  then show ?case using Cons.IH by simp
qed

lemma lives_run_dead: "lives p = 0 \<Longrightarrow> lives (run es p) = 0"
proof (induction es arbitrary: p)
  case Nil
  then show ?case by simp
next
  case (Cons e es)
  have "lives (step e p) = 0"
    using Cons.prems by (cases e) (simp_all add: lives_takeDamage_dead)
  then show ?case using Cons.IH by simp
qed

lemma run_replicate_Damage: "run (replicate n Damage) p = (takeDamage ^^ n) p"
  by (induction n arbitrary: p) (simp_all add: funpow_swap1)


lemma damageCooldown_update:
  "damageCooldown (update deltaTime inp p)
     = (if damageCooldown p > 0 then damageCooldown p - deltaTime else damageCooldown p)"
  by (simp add: tick_defs Let_def)

lemma cooldown_takeDamage:
  "damageCooldown (takeDamage p)
     = (if damageCooldown p \<le> 0 \<and> lives p > 0 then damageCooldownTime else damageCooldown p)"
  by (simp add: takeDamage_def)

lemma cooldown_step_lower:
  assumes "ticksWithin D [e]" and "0 \<le> D" and "- D \<le> damageCooldown p"
  shows "- D \<le> damageCooldown (step e p)"
proof (cases e)
  case (Tick deltaTime inp)
  then show ?thesis using assms by (simp add: damageCooldown_update)
next
  case Damage
  then show ?thesis using assms by (simp add: cooldown_takeDamage damageCooldownTime_def)
qed

lemma ticksWithin_Cons: "ticksWithin D (e # es) = (ticksWithin D [e] \<and> ticksWithin D es)"
  by (cases e) simp_all

lemma cooldown_run_lower:
  "ticksWithin D es \<and> 0 \<le> D \<and> - D \<le> damageCooldown p \<Longrightarrow> - D \<le> damageCooldown (run es p)"
proof (induction es arbitrary: p)
  case Nil
  then show ?case by simp
next
  case (Cons e es)
  have "ticksWithin D [e]" and "ticksWithin D es"
    using Cons.prems ticksWithin_Cons [of D e es] by simp_all
  moreover have "- D \<le> damageCooldown (step e p)"
    using cooldown_step_lower [of D e p] Cons.prems \<open>ticksWithin D [e]\<close> by simp
  ultimately show ?case using Cons.IH [of "step e p"] Cons.prems by simp
qed

subsection \<open>Vertical motion in one tick\<close>

lemma vertical_tickCooldown [simp]:
  "position (tickCooldown deltaTime p) = position p"
  "velocity (tickCooldown deltaTime p) = velocity p"
  "onGround (tickCooldown deltaTime p) = onGround p"
  by (simp_all add: tickCooldown_def)

lemma vy_position_handleInput [simp]: "vy (position (handleInput inp p)) = vy (position p)"
  by (simp add: handleInput_def applyCameraControl_def applyJump_def applyMovement_def Let_def)

lemma velocity_handleInput:
  "velocity (handleInput inp p)
     = (if shouldJump inp \<and> onGround p then (velocity p)\<lparr>vy := jumpForce\<rparr> else velocity p)"
  by (simp add: handleInput_def applyCameraControl_def applyJump_def applyMovement_def Let_def)

lemma onGround_handleInput: "onGround (handleInput inp p) = (onGround p \<and> \<not> shouldJump inp)"
  by (auto simp add: handleInput_def applyCameraControl_def applyJump_def applyMovement_def Let_def)

lemma vy_integrated:
  "vy (position (applyPhysics (handleInput inp (tickCooldown deltaTime p))))
     = vy (position p)
       + ((if shouldJump inp \<and> onGround p then jumpForce else vy (velocity p)) + gravity)"
  "vy (velocity (applyPhysics (handleInput inp (tickCooldown deltaTime p))))
     = (if shouldJump inp \<and> onGround p then jumpForce else vy (velocity p)) + gravity"
  by (simp_all add: applyPhysics_def velocity_handleInput Let_def)

subsection \<open>The closed damage gate\<close>

lemma elapsedTime_nonneg: "ticksWithin D es \<Longrightarrow> 0 \<le> elapsedTime es"
  by (induction D es rule: ticksWithin.induct) simp_all

lemma lives_takeDamage:
  "lives (takeDamage p) = (if damageCooldown p \<le> 0 \<and> lives p > 0 then lives p - 1 else lives p)"
  by (simp add: takeDamage_def)

lemma gate_closed_run:
  "ticksWithin D es \<Longrightarrow> elapsedTime es < damageCooldown p \<Longrightarrow>
     lives (run es p) = lives p \<and> damageCooldown (run es p) = damageCooldown p - elapsedTime es"
proof (induction D es arbitrary: p rule: ticksWithin.induct)
  case (1 D)
  then show ?case by simp
next
  case (2 D deltaTime inp es)
  have nn: "0 \<le> elapsedTime es" using "2.prems" elapsedTime_nonneg [of D es] by simp
  have pos: "0 < damageCooldown p" using "2.prems" nn by simp
  have cd: "damageCooldown (update deltaTime inp p) = damageCooldown p - deltaTime"
    using pos by (simp add: damageCooldown_update)
  have "elapsedTime es < damageCooldown (update deltaTime inp p)"
    using "2.prems" cd by simp
  then show ?case using "2.IH" [of "update deltaTime inp p"] "2.prems" cd by simp
next
  case (3 D es)
  have nn: "0 \<le> elapsedTime es" using "3.prems" elapsedTime_nonneg [of D es] by simp
  have "takeDamage p = p" using "3.prems" nn by (simp add: takeDamage_def)
  then show ?case using "3.IH" [of p] "3.prems" by simp
qed

subsection \<open>Falling and landing\<close>

lemma vertical_update:
  "vy (position (update deltaTime inp p))
     = (if vy (position (applyPhysics (handleInput inp (tickCooldown deltaTime p)))) \<le> groundY
        then groundY
        else vy (position (applyPhysics (handleInput inp (tickCooldown deltaTime p)))))"
  "vy (velocity (update deltaTime inp p))
     = (if vy (position (applyPhysics (handleInput inp (tickCooldown deltaTime p)))) \<le> groundY
        then 0
        else vy (velocity (applyPhysics (handleInput inp (tickCooldown deltaTime p)))))"
  "onGround (update deltaTime inp p)
     = (vy (position (applyPhysics (handleInput inp (tickCooldown deltaTime p)))) \<le> groundY)"
  by (simp_all add: update_def updateCamera_def checkGroundCollision_def Let_def)

lemma grounded_tick:
  assumes "grounded p" and "\<not> shouldJump inp"
  shows "grounded (update deltaTime inp p)"
  using assms by (simp add: grounded_def vertical_update vy_integrated gravity_def)

lemma fallen_Suc: "fallen (Suc k) = fallen k - gravity * (real k + 1)"
  by (simp add: fallen_def field_simps)

lemma falling_tick:
  assumes "falling h k p" and "\<not> shouldJump inp"
  shows "grounded (update deltaTime inp p) \<or> falling h (Suc k) (update deltaTime inp p)"
proof -
  have v: "vy (velocity (applyPhysics (handleInput inp (tickCooldown deltaTime p))))
      = gravity * real (Suc k)"
    using assms by (simp add: vy_integrated falling_def algebra_simps)
  have y: "vy (position (applyPhysics (handleInput inp (tickCooldown deltaTime p))))
      = h - fallen (Suc k)"
    using assms by (simp add: vy_integrated falling_def fallen_Suc algebra_simps)
  show ?thesis
  proof (cases "h - fallen (Suc k) \<le> groundY")
    case True
    then show ?thesis using y by (simp add: grounded_def vertical_update)
  next
    case False
    then have "falling h (Suc k) (update deltaTime inp p)"
      using v y by (simp add: falling_def vertical_update)
    then show ?thesis by simp
  qed
qed

lemma fall_run:
  "noJumpTicks es \<Longrightarrow> grounded p \<or> falling h k p \<Longrightarrow>
     grounded (run es p) \<or> falling h (k + length es) (run es p)"
proof (induction es arbitrary: p k rule: noJumpTicks.induct)
  case 1
  then show ?case by simp
next
  case (2 deltaTime inp es)
  have "grounded (update deltaTime inp p) \<or> falling h (Suc k) (update deltaTime inp p)"
    using "2.prems" grounded_tick [of p inp deltaTime] falling_tick [of h k p inp deltaTime]
    by auto
  then show ?case using "2.IH" [of "update deltaTime inp p" "Suc k"] "2.prems" by simp
next
  case (3 es)
  then show ?case by simp
qed

lemma grounded_run: "noJumpTicks es \<Longrightarrow> grounded p \<Longrightarrow> grounded (run es p)"
proof (induction es arbitrary: p rule: noJumpTicks.induct)
  case 1
  then show ?case by simp
next
  case (2 deltaTime inp es)
  then show ?case using grounded_tick [of p inp deltaTime] by simp
next
  case (3 es)
  then show ?case by simp
qed

lemma fallen_mono: "n \<le> m \<Longrightarrow> fallen n \<le> fallen m"
proof -
  assume "n \<le> m"
  then have "real n * (real n + 1) \<le> real m * (real m + 1)"
    by (intro mult_mono) simp_all
  then show ?thesis by (simp add: fallen_def gravity_def)
qed

lemma settleTicks_enough: "h - groundY \<le> fallen (settleTicks h)"
proof -
  have a: "(h - groundY) / (- gravity) \<le> real (settleTicks h)"
    unfolding settleTicks_def by linarith
  have "h - groundY \<le> - gravity * real (settleTicks h)"
    using a by (simp add: gravity_def field_simps)
  moreover have "real (settleTicks h) \<le> real (settleTicks h) * (real (settleTicks h) + 1) / 2"
  proof -
    have "real (settleTicks h) * 1 \<le> real (settleTicks h) * real (settleTicks h)"
      by (cases "settleTicks h") (simp_all add: mult_left_mono)
    then show ?thesis by (simp add: algebra_simps)
  qed
  then have "- gravity * real (settleTicks h) \<le> fallen (settleTicks h)"
    by (simp add: fallen_def gravity_def)
  ultimately show ?thesis by linarith
qed

lemma noJumpTicks_replicate:
  "\<not> shouldJump inp \<Longrightarrow> noJumpTicks (replicate n (Tick deltaTime inp))"
  by (induction n) simp_all

subsection \<open>The inward heading\<close>

text \<open>Sine and cosine of \<open>atan2 y x\<close> are the coordinates of the unit vector towards \<open>(x, y)\<close>.\<close>

lemma sqrt_one_plus_ratio:
  assumes "x \<noteq> 0"
  shows "sqrt (1 + (y / x)\<^sup>2) = sqrt (x\<^sup>2 + y\<^sup>2) / \<bar>x\<bar>"
proof -
  have "1 + (y / x)\<^sup>2 = (x\<^sup>2 + y\<^sup>2) / x\<^sup>2"
    using assms by (simp add: field_simps power2_eq_square)
  then show ?thesis by (simp add: real_sqrt_divide)
qed

lemma hyp_pos: "x \<noteq> 0 \<or> y \<noteq> 0 \<Longrightarrow> 0 < sqrt ((x::real)\<^sup>2 + y\<^sup>2)"
  by (auto simp add: real_sqrt_gt_0_iff sum_power2_gt_zero_iff)

lemma sin_arctan_ratio:
  assumes "x \<noteq> 0"
  shows "sin (arctan (y / x)) = (y / x) * \<bar>x\<bar> / sqrt (x\<^sup>2 + y\<^sup>2)"
  using assms by (simp add: sin_arctan sqrt_one_plus_ratio)

lemma cos_arctan_ratio:
  assumes "x \<noteq> 0"
  shows "cos (arctan (y / x)) = \<bar>x\<bar> / sqrt (x\<^sup>2 + y\<^sup>2)"
  using assms by (simp add: cos_arctan sqrt_one_plus_ratio)

lemma sin_atan2:
  assumes "x \<noteq> 0 \<or> y \<noteq> 0"
  shows "sin (atan2 y x) = y / sqrt (x\<^sup>2 + y\<^sup>2)"
proof -
  consider "0 < x" | "x < 0" | "x = 0" "0 < y" | "x = 0" "y < 0"
    using assms by linarith
  then show ?thesis
  proof cases
    case 1
    then show ?thesis by (simp add: atan2_def sin_arctan_ratio)
  next
    case 2
    then show ?thesis by (simp add: atan2_def sin_arctan_ratio)
  next
    case 3
    then show ?thesis by (simp add: atan2_def)
  next
    case 4
    then show ?thesis by (simp add: atan2_def)
  qed
qed

lemma cos_atan2:
  assumes "x \<noteq> 0 \<or> y \<noteq> 0"
  shows "cos (atan2 y x) = x / sqrt (x\<^sup>2 + y\<^sup>2)"
proof -
  consider "0 < x" | "x < 0" | "x = 0" "0 < y" | "x = 0" "y < 0"
    using assms by linarith
  then show ?thesis
  proof cases
    case 1
    then show ?thesis by (simp add: atan2_def cos_arctan_ratio)
  next
    case 2
    then show ?thesis by (simp add: atan2_def cos_arctan_ratio)
  next
    case 3
    then show ?thesis by (simp add: atan2_def)
  next
    case 4
    then show ?thesis by (simp add: atan2_def)
  qed
qed

subsection \<open>The player in a game tick\<close>

text \<open>The player through the phases of \<open>RanchGame.update\<close>.\<close>

lemma position_takeDamage [simp]: "position (takeDamage p) = position p"
  by (simp add: takeDamage_def)

lemma player_hitByCactus [simp]: "player (hitByCactus n now g) = takeDamage (player g)"
  by (simp add: hitByCactus_def updateLivesUI_def Let_def)

lemma cacti_hitByCactus [simp]:
  "choyas (hitByCactus n now g) = choyas g" "barrelCacti (hitByCactus n now g) = barrelCacti g"
  by (simp_all add: hitByCactus_def updateLivesUI_def Let_def)

lemma player_choyaLoop:
  "player (choyaLoop env i cs g)
     = (takeDamage ^^ length (filter (\<lambda>c. Choya_checkCollision c (position (player g)) getRadius) cs))
         (player g)"
proof (induction cs arbitrary: i g)
  case Nil
  then show ?case by simp
next
  case (Cons c cs)
  show ?case
  proof (cases "Choya_checkCollision c (position (player g)) getRadius")
    case True
    then show ?thesis
      using Cons.IH [of "Suc i" "hitByCactus (Choya_spineCount (choyaRandom env i)) (choyaNow env i) g"]
      by (simp add: funpow_swap1)
  next
    case False
    then show ?thesis using Cons.IH [of "Suc i" g] by simp
  qed
qed

lemma player_barrelLoop:
  "player (barrelLoop env i cs g)
     = (takeDamage ^^ length (filter (\<lambda>c. BarrelCactus_checkCollision c (position (player g)) getRadius) cs))
         (player g)"
proof (induction cs arbitrary: i g)
  case Nil
  then show ?case by simp
next
  case (Cons c cs)
  show ?case
  proof (cases "BarrelCactus_checkCollision c (position (player g)) getRadius")
    case True
    then show ?thesis
      using Cons.IH [of "Suc i"
          "hitByCactus (BarrelCactus_spineCount (barrelRandom env i)) (barrelNow env i) g"]
      by (simp add: funpow_swap1)
  next
    case False
    then show ?thesis using Cons.IH [of "Suc i" g] by simp
  qed
qed

lemma cacti_choyaLoop [simp]:
  "choyas (choyaLoop env i cs g) = choyas g" "barrelCacti (choyaLoop env i cs g) = barrelCacti g"
  by (induction cs arbitrary: i g) simp_all

lemma position_funpow_takeDamage [simp]: "position ((takeDamage ^^ k) p) = position p"
  by (induction k) simp_all

lemma player_hazardPhase:
  "player (hazardPhase deltaTime env g)
     = (takeDamage ^^ collidingHazards (position (update deltaTime (envInput env) (player g))) g)
         (update deltaTime (envInput env) (player g))"
  by (simp add: hazardPhase_def Let_def player_barrelLoop player_choyaLoop collidingHazards_def
      funpow_add add.commute)

lemma player_agingPhase [simp]: "player (agingPhase now g) = player g"
  by (simp add: agingPhase_def Let_def)

lemma player_animalPhase [simp]: "player (animalPhase deltaTime env g) = player g"
  by (simp add: animalPhase_def)

lemma player_RanchGame_update:
  "player (RanchGame_update deltaTime env g) = player (hazardPhase deltaTime env g)"
  by (simp add: RanchGame_update_def)

lemma takeDamage_rejected: "0 < damageCooldown p \<Longrightarrow> takeDamage p = p"
  by (simp add: takeDamage_def)

lemma takeDamage_once:
  assumes "damageCooldown p \<le> 0" and "0 < lives p"
  shows "(takeDamage ^^ Suc k) p = takeDamage p"
proof (induction k)
  case 0
  then show ?case by simp
next
  case (Suc k)
  have "0 < damageCooldown (takeDamage p)"
    using assms by (simp add: takeDamage_def damageCooldownTime_def)
  then have "takeDamage (takeDamage p) = takeDamage p"
    by (rule takeDamage_rejected)
  then show ?case using Suc by simp
qed

lemma sample_position:
  "position (update 0.016 (envInput sampleEnv) (player sampleGame)) = \<lparr>vx = 10, vy = 0.3, vz = 5\<rparr>"
  by (simp add: tick_defs sampleGame_def sampleEnv_def noInput_def newCowboyPlayer_def
      moveDirectionOf_def vlength_def shouldJump_def gravity_def groundY_def Let_def)

lemma sample_collisions:
  "collidingHazards \<lparr>vx = 10, vy = 0.3, vz = 5\<rparr> sampleGame = 2"
proof -
  have a: "sqrt ((0.6 - 0.3) * (0.6 - 0.3)) < (1.2 * 0.35 + 0.4 :: real)"
    by (rule real_less_lsqrt) (simp_all add: power2_eq_square)
  have b: "sqrt ((0.3 * 0.05 - 0.3) * (0.3 * 0.05 - 0.3) + (5.2 - 5) * (5.2 - 5))
      < (0.6 * 0.05 + 0.4 :: real)"
    by (rule real_less_lsqrt) (simp_all add: power2_eq_square)
  have c1: "Choya_checkCollision (Choya_loadModel (newChoya \<lparr>vx = 10, vy = 0, vz = 5\<rparr> 0.35))
      \<lparr>vx = 10, vy = 0.3, vz = 5\<rparr> getRadius"
    using a by (simp add: Choya_checkCollision_def Choya_loadModel_def newChoya_def
        distanceTo_def getRadius_def Let_def)
  have c2: "\<not> Choya_checkCollision (newChoya \<lparr>vx = 10, vy = 0, vz = 5\<rparr> 0.35)
      \<lparr>vx = 10, vy = 0.3, vz = 5\<rparr> getRadius"
    by (simp add: Choya_checkCollision_def newChoya_def)
  have c3: "BarrelCactus_checkCollision
      (BarrelCactus_loadModel (newBarrelCactus \<lparr>vx = 10, vy = 0, vz = 5.2\<rparr> 0.05))
      \<lparr>vx = 10, vy = 0.3, vz = 5\<rparr> getRadius"
    using b by (simp add: BarrelCactus_checkCollision_def BarrelCactus_loadModel_def
        newBarrelCactus_def distanceTo_def getRadius_def Let_def)
  show ?thesis
    using c1 c2 c3 by (simp add: collidingHazards_def sampleGame_def)
qed

subsection \<open>Spines in a game tick\<close>

text \<open>The aging loop as a filter of the list and a fold over the store.\<close>

lemma ageSpines_list:
  "k \<le> length spines \<Longrightarrow>
     snd (ageSpines now k (store, spines))
       = filter (\<lambda>sd. now - startTime sd < fadeDuration sd) (take k spines) @ drop k spines"
proof (induction k arbitrary: store spines)
  case 0
  then show ?case by simp
next
  case (Suc k)
  let ?sd = "spines ! k"
  have k: "k < length spines" using Suc.prems by simp
  have tk: "take (Suc k) spines = take k spines @ [?sd]"
    using k by (simp add: take_Suc_conv_app_nth)
  show ?case
  proof (cases "now - startTime ?sd \<ge> fadeDuration ?sd")
    case True
    have len: "k \<le> length (take k spines @ drop (Suc k) spines)"
      using k by simp
    have "snd (ageSpines now (Suc k) (store, spines))
        = snd (ageSpines now k (releaseSpine ?sd store, take k spines @ drop (Suc k) spines))"
      using True by (simp add: Let_def)
    also have "\<dots> = filter (\<lambda>sd. now - startTime sd < fadeDuration sd)
          (take k (take k spines @ drop (Suc k) spines))
        @ drop k (take k spines @ drop (Suc k) spines)"
      using Suc.IH [OF len] by simp
    also have "\<dots> = filter (\<lambda>sd. now - startTime sd < fadeDuration sd) (take k spines)
        @ drop (Suc k) spines"
      using k by simp
    finally show ?thesis using True tk by simp
  next
    case False
    have "snd (ageSpines now (Suc k) (store, spines))
        = snd (ageSpines now k (fadeSpine (now - startTime ?sd) ?sd store, spines))"
      using False by (simp add: Let_def)
    also have "\<dots> = filter (\<lambda>sd. now - startTime sd < fadeDuration sd) (take k spines)
        @ drop k spines"
      using Suc.IH [of spines] k by simp
    finally show ?thesis using False tk k by (simp add: Cons_nth_drop_Suc)
  qed
qed

lemma ageSpines_store:
  "k \<le> length spines \<Longrightarrow>
     fst (ageSpines now k (store, spines)) = fold (ageMesh now) (rev (take k spines)) store"
proof (induction k arbitrary: store spines)
  case 0
  then show ?case by simp
next
  case (Suc k)
  let ?sd = "spines ! k"
  have k: "k < length spines" using Suc.prems by simp
  have tk: "take (Suc k) spines = take k spines @ [?sd]"
    using k by (simp add: take_Suc_conv_app_nth)
  show ?case
  proof (cases "now - startTime ?sd \<ge> fadeDuration ?sd")
    case True
    have len: "k \<le> length (take k spines @ drop (Suc k) spines)"
      using k by simp
    have "fst (ageSpines now (Suc k) (store, spines))
        = fst (ageSpines now k (releaseSpine ?sd store, take k spines @ drop (Suc k) spines))"
      using True by (simp add: Let_def)
    also have "\<dots> = fold (ageMesh now)
          (rev (take k (take k spines @ drop (Suc k) spines))) (releaseSpine ?sd store)"
      using Suc.IH [OF len] by simp
    also have "\<dots> = fold (ageMesh now) (rev (take k spines)) (releaseSpine ?sd store)"
      using k by simp
    finally have r: "fst (ageSpines now (Suc k) (store, spines))
        = fold (ageMesh now) (rev (take k spines)) (releaseSpine ?sd store)" .
    have "ageMesh now ?sd store = releaseSpine ?sd store"
      using True by (simp add: ageMesh_def)
    then show ?thesis using r tk by simp
  next
    case False
    have "fst (ageSpines now (Suc k) (store, spines))
        = fst (ageSpines now k (fadeSpine (now - startTime ?sd) ?sd store, spines))"
      using False by (simp add: Let_def)
    also have "\<dots> = fold (ageMesh now) (rev (take k spines))
          (fadeSpine (now - startTime ?sd) ?sd store)"
      using Suc.IH [of spines] k by simp
    finally have r: "fst (ageSpines now (Suc k) (store, spines))
        = fold (ageMesh now) (rev (take k spines)) (fadeSpine (now - startTime ?sd) ?sd store)" .
    have "ageMesh now ?sd store = fadeSpine (now - startTime ?sd) ?sd store"
      using False by (simp add: ageMesh_def)
    then show ?thesis using r tk by simp
  qed
qed

lemma length_ageMesh [simp]: "length (ageMesh now sd store) = length store"
  by (simp add: ageMesh_def releaseSpine_def fadeSpine_def)

lemma length_fold_ageMesh [simp]: "length (fold (ageMesh now) xs store) = length store"
  by (induction xs arbitrary: store) simp_all

lemma nth_ageMesh_other: "spineMesh sd \<noteq> r \<Longrightarrow> ageMesh now sd store ! r = store ! r"
  by (simp add: ageMesh_def releaseSpine_def fadeSpine_def)

lemma nth_fold_ageMesh_other:
  "r \<notin> spineMesh ` set xs \<Longrightarrow> fold (ageMesh now) xs store ! r = store ! r"
  by (induction xs arbitrary: store) (simp_all add: nth_ageMesh_other)

lemma nth_ageMesh_same:
  "spineMesh sd < length store \<Longrightarrow>
     ageMesh now sd store ! spineMesh sd
       = (if now - startTime sd \<ge> fadeDuration sd
          then (store ! spineMesh sd)\<lparr>attached := False, disposed := True\<rparr>
          else (store ! spineMesh sd)\<lparr>opacity := 1 - (now - startTime sd) / fadeDuration sd\<rparr>)"
  by (simp add: ageMesh_def releaseSpine_def fadeSpine_def)

lemma nth_fold_ageMesh:
  "distinct (map spineMesh xs) \<Longrightarrow> sd \<in> set xs \<Longrightarrow> spineMesh sd < length store \<Longrightarrow>
     fold (ageMesh now) xs store ! spineMesh sd
       = (if now - startTime sd \<ge> fadeDuration sd
          then (store ! spineMesh sd)\<lparr>attached := False, disposed := True\<rparr>
          else (store ! spineMesh sd)\<lparr>opacity := 1 - (now - startTime sd) / fadeDuration sd\<rparr>)"
proof (induction xs arbitrary: store)
  case Nil
  then show ?case by simp
next
  case (Cons x xs)
  show ?case
  proof (cases "sd = x")
    case True
    have "spineMesh sd \<notin> spineMesh ` set xs" using Cons.prems True by auto
    then have "fold (ageMesh now) xs (ageMesh now x store) ! spineMesh sd
        = ageMesh now x store ! spineMesh sd"
      by (rule nth_fold_ageMesh_other)
    then show ?thesis using True Cons.prems nth_ageMesh_same [of sd store now] by simp
  next
    case False
    then have m: "sd \<in> set xs" using Cons.prems by simp
    then have ne: "spineMesh x \<noteq> spineMesh sd" using Cons.prems by auto
    have "fold (ageMesh now) xs (ageMesh now x store) ! spineMesh sd
        = (if now - startTime sd \<ge> fadeDuration sd
           then (ageMesh now x store ! spineMesh sd)\<lparr>attached := False, disposed := True\<rparr>
           else (ageMesh now x store ! spineMesh sd)
                  \<lparr>opacity := 1 - (now - startTime sd) / fadeDuration sd\<rparr>)"
      using Cons.IH [of "ageMesh now x store"] Cons.prems m by simp
    then show ?thesis using nth_ageMesh_other [OF ne, of now store] by simp
  qed
qed


lemma spines_hitByCactus:
  "activeSpines (hitByCactus n t g)
     = activeSpines g
       @ map (\<lambda>m. \<lparr>spineMesh = m, startTime = t, fadeDuration = 3000\<rparr>)
           [length (spineMeshes g) ..< length (spineMeshes g) + n]"
  "spineMeshes (hitByCactus n t g)
     = spineMeshes g @ replicate n \<lparr>attached = True, disposed = False, opacity = 1\<rparr>"
  by (simp_all add: hitByCactus_def updateLivesUI_def createSpineEffect_def Let_def)

lemma wf_hitByCactus:
  assumes "spinesWellFormed g"
  shows "spinesWellFormed (hitByCactus n t g)"
proof -
  let ?len = "length (spineMeshes g)"
  have refs: "map spineMesh (map (\<lambda>m. \<lparr>spineMesh = m, startTime = t, fadeDuration = 3000\<rparr>)
      [?len ..< ?len + n]) = [?len ..< ?len + n]"
    by (simp add: comp_def)
  have old: "\<forall>sd \<in> set (activeSpines g). spineMesh sd < ?len"
    using assms by (simp add: spinesWellFormed_def)
  have disj: "spineMesh ` set (activeSpines g) \<inter> set [?len ..< ?len + n] = {}"
    using old by auto
  have "distinct (map spineMesh (activeSpines (hitByCactus n t g)))"
    using assms disj unfolding spines_hitByCactus
    by (simp add: spinesWellFormed_def comp_def)
  moreover have "\<forall>sd \<in> set (activeSpines (hitByCactus n t g)).
      spineMesh sd < length (spineMeshes (hitByCactus n t g))"
    using old unfolding spines_hitByCactus by auto
  ultimately show ?thesis by (simp add: spinesWellFormed_def)
qed

lemma subset_hitByCactus: "set (activeSpines g) \<subseteq> set (activeSpines (hitByCactus n t g))"
  by (simp add: spines_hitByCactus)

lemma spines_choyaLoop:
  "spinesWellFormed g \<Longrightarrow>
     spinesWellFormed (choyaLoop env i cs g)
     \<and> set (activeSpines g) \<subseteq> set (activeSpines (choyaLoop env i cs g))"
proof (induction cs arbitrary: i g)
  case Nil
  then show ?case by simp
next
  case (Cons c cs)
  let ?g = "if Choya_checkCollision c (position (player g)) getRadius
        then hitByCactus (Choya_spineCount (choyaRandom env i)) (choyaNow env i) g else g"
  have w: "spinesWellFormed ?g"
    using Cons.prems wf_hitByCactus by simp
  have s: "set (activeSpines g) \<subseteq> set (activeSpines ?g)"
    using subset_hitByCactus by simp
  have "spinesWellFormed (choyaLoop env (Suc i) cs ?g)
     \<and> set (activeSpines ?g) \<subseteq> set (activeSpines (choyaLoop env (Suc i) cs ?g))"
    using Cons.IH [OF w] .
  then show ?case using s by auto
qed

lemma spines_barrelLoop:
  "spinesWellFormed g \<Longrightarrow>
     spinesWellFormed (barrelLoop env i cs g)
     \<and> set (activeSpines g) \<subseteq> set (activeSpines (barrelLoop env i cs g))"
proof (induction cs arbitrary: i g)
  case Nil
  then show ?case by simp
next
  case (Cons c cs)
  let ?g = "if BarrelCactus_checkCollision c (position (player g)) getRadius
        then hitByCactus (BarrelCactus_spineCount (barrelRandom env i)) (barrelNow env i) g else g"
  have w: "spinesWellFormed ?g"
    using Cons.prems wf_hitByCactus by simp
  have s: "set (activeSpines g) \<subseteq> set (activeSpines ?g)"
    using subset_hitByCactus by simp
  have "spinesWellFormed (barrelLoop env (Suc i) cs ?g)
     \<and> set (activeSpines ?g) \<subseteq> set (activeSpines (barrelLoop env (Suc i) cs ?g))"
    using Cons.IH [OF w] .
  then show ?case using s by auto
qed

lemma spines_hazardPhase:
  assumes "spinesWellFormed g"
  shows "spinesWellFormed (hazardPhase deltaTime env g)
     \<and> set (activeSpines g) \<subseteq> set (activeSpines (hazardPhase deltaTime env g))"
proof -
  let ?g1 = "g\<lparr>player := update deltaTime (envInput env) (player g)\<rparr>"
  let ?g2 = "choyaLoop env 0 (choyas ?g1) ?g1"
  have w1: "spinesWellFormed ?g1"
    using assms by (simp add: spinesWellFormed_def)
  have c: "spinesWellFormed ?g2 \<and> set (activeSpines ?g1) \<subseteq> set (activeSpines ?g2)"
    using spines_choyaLoop [OF w1] .
  then have b: "spinesWellFormed (barrelLoop env 0 (barrelCacti ?g2) ?g2)
      \<and> set (activeSpines ?g2) \<subseteq> set (activeSpines (barrelLoop env 0 (barrelCacti ?g2) ?g2))"
    using spines_barrelLoop [of ?g2] by simp
  have h: "hazardPhase deltaTime env g = barrelLoop env 0 (barrelCacti ?g2) ?g2"
    by (simp add: hazardPhase_def Let_def)
  show ?thesis using c b unfolding h by auto
qed

lemma spines_agingPhase:
  "activeSpines (agingPhase now g)
     = filter (\<lambda>sd. now - startTime sd < fadeDuration sd) (activeSpines g)"
  "spineMeshes (agingPhase now g) = fold (ageMesh now) (rev (activeSpines g)) (spineMeshes g)"
  by (simp_all add: agingPhase_def Let_def ageSpines_list ageSpines_store)

lemma wf_agingPhase:
  assumes "spinesWellFormed g"
  shows "spinesWellFormed (agingPhase now g)"
  using assms by (simp add: spinesWellFormed_def spines_agingPhase distinct_map_filter)

lemma spines_animalPhase [simp]:
  "activeSpines (animalPhase deltaTime env g) = activeSpines g"
  "spineMeshes (animalPhase deltaTime env g) = spineMeshes g"
  by (simp_all add: animalPhase_def)

lemma aged_mesh:
  assumes "spinesWellFormed g" and "sd \<in> set (activeSpines g)"
  shows "spineMeshes (agingPhase now g) ! spineMesh sd
       = (if now - startTime sd \<ge> fadeDuration sd
          then (spineMeshes g ! spineMesh sd)\<lparr>attached := False, disposed := True\<rparr>
          else (spineMeshes g ! spineMesh sd)
                 \<lparr>opacity := 1 - (now - startTime sd) / fadeDuration sd\<rparr>)"
proof -
  have d: "distinct (map spineMesh (rev (activeSpines g)))"
    using assms by (simp add: spinesWellFormed_def rev_map [symmetric])
  have m: "sd \<in> set (rev (activeSpines g))" using assms by simp
  have r: "spineMesh sd < length (spineMeshes g)"
    using assms by (simp add: spinesWellFormed_def)
  show ?thesis
    unfolding spines_agingPhase using nth_fold_ageMesh [OF d m r, of now] .
qed

lemma released_keep:
  "\<not> attached (store ! r) \<and> disposed (store ! r) \<Longrightarrow>
     \<not> attached (fold releaseSpine xs store ! r) \<and> disposed (fold releaseSpine xs store ! r)"
proof (induction xs arbitrary: store)
  case Nil
  then show ?case by simp
next
  case (Cons x xs)
  have "\<not> attached (releaseSpine x store ! r) \<and> disposed (releaseSpine x store ! r)"
    using Cons.prems by (cases "spineMesh x = r"; cases "r < length store")
      (simp_all add: releaseSpine_def list_update_beyond)
  then show ?case using Cons.IH [of "releaseSpine x store"] by simp
qed

lemma length_fold_releaseSpine [simp]: "length (fold releaseSpine xs store) = length store"
  by (induction xs arbitrary: store) (simp_all add: releaseSpine_def)

lemma released_all:
  "sd \<in> set xs \<Longrightarrow> spineMesh sd < length store \<Longrightarrow>
     \<not> attached (fold releaseSpine xs store ! spineMesh sd)
     \<and> disposed (fold releaseSpine xs store ! spineMesh sd)"
proof (induction xs arbitrary: store)
  case Nil
  then show ?case by simp
next
  case (Cons x xs)
  show ?case
  proof (cases "sd = x")
    case True
    have "\<not> attached (releaseSpine x store ! spineMesh sd)
        \<and> disposed (releaseSpine x store ! spineMesh sd)"
      using True Cons.prems by (simp add: releaseSpine_def)
    then show ?thesis using released_keep [of "releaseSpine x store" "spineMesh sd" xs] by simp
  next
    case False
    then have "sd \<in> set xs" using Cons.prems by simp
    moreover have "spineMesh sd < length (releaseSpine x store)"
      using Cons.prems by (simp add: releaseSpine_def)
    ultimately show ?thesis using Cons.IH [of "releaseSpine x store"] by simp
  qed
qed

subsection \<open>The position after a tick\<close>

lemma position_handleInput_tickCooldown:
  "position (handleInput inp (tickCooldown deltaTime p)) = position (handleInput inp p)"
  by (simp add: handleInput_def applyCameraControl_def applyJump_def applyMovement_def
      tickCooldown_def Let_def)

lemma position_handleInput_still:
  "vlength (moveDirectionOf inp) = 0 \<Longrightarrow> position (handleInput inp p) = position p"
  by (simp add: handleInput_def applyCameraControl_def applyJump_def applyMovement_def)

lemma position_applyPhysics:
  "position (applyPhysics q) = (position q)\<lparr>vy := vy (position q) + (vy (velocity q) + gravity)\<rparr>"
  by (simp add: applyPhysics_def Let_def)

lemma position_update:
  "position (update deltaTime inp p)
     = (position (handleInput inp p))
         \<lparr>vy := max groundY
            (vy (position p)
             + ((if shouldJump inp \<and> onGround p then jumpForce else vy (velocity p)) + gravity))\<rparr>"
proof -
  let ?q = "handleInput inp (tickCooldown deltaTime p)"
  let ?y = "vy (position p)
      + ((if shouldJump inp \<and> onGround p then jumpForce else vy (velocity p)) + gravity)"
  have y: "vy (position (applyPhysics ?q)) = ?y"
    by (rule vy_integrated(1))
  have pq: "position (applyPhysics ?q) = (position (handleInput inp p))\<lparr>vy := ?y\<rparr>"
    using y by (simp add: position_applyPhysics position_handleInput_tickCooldown)
  have "position (update deltaTime inp p)
      = (if vy (position (applyPhysics ?q)) \<le> groundY
         then (position (applyPhysics ?q))\<lparr>vy := groundY\<rparr>
         else position (applyPhysics ?q))"
    by (simp add: update_def updateCamera_def checkGroundCollision_def Let_def)
  then show ?thesis unfolding pq by (simp add: max_def)
qed

section \<open>Claims\<close>

subsection \<open>C1\<close>

text \<open>
  C1.  \<open>takeDamage()\<close> changes nothing when the cooldown is positive or no life is left;
  otherwise (on a state with a non-negative life count, as every state of the game is) it
  takes exactly one life and sets the cooldown to the cooldown time \<open>1.0\<close>, touching no
  other field.  Hence along every history of calls and ticks, and in particular along
  every sequence of \<open>takeDamage()\<close> calls, the life count never becomes negative and
  stays \<open>0\<close> once it is \<open>0\<close>.
\<close>

theorem takeDamage_gate:
  "(damageCooldown p > 0 \<or> lives p = 0 \<longrightarrow> takeDamage p = p)
   \<and> (\<not> (damageCooldown p > 0 \<or> lives p = 0) \<and> 0 \<le> lives p \<longrightarrow>
        takeDamage p = p\<lparr>lives := lives p - 1, damageCooldown := 1\<rparr>
        \<and> lives (takeDamage p) = lives p - 1
        \<and> damageCooldown (takeDamage p) = damageCooldownTime
        \<and> damageCooldownTime = 1)
   \<and> (0 \<le> lives p \<longrightarrow> 0 \<le> lives ((takeDamage ^^ n) p) \<and> 0 \<le> lives (run es p))
   \<and> (lives p = 0 \<longrightarrow> lives ((takeDamage ^^ n) p) = 0 \<and> lives (run es p) = 0)"
proof -
  have a: "damageCooldown p > 0 \<or> lives p = 0 \<longrightarrow> takeDamage p = p"
    by (auto simp add: takeDamage_def)
  have b: "\<not> (damageCooldown p > 0 \<or> lives p = 0) \<and> 0 \<le> lives p \<longrightarrow>
        takeDamage p = p\<lparr>lives := lives p - 1, damageCooldown := 1\<rparr>
        \<and> lives (takeDamage p) = lives p - 1
        \<and> damageCooldown (takeDamage p) = damageCooldownTime
        \<and> damageCooldownTime = 1"
    by (auto simp add: takeDamage_def damageCooldownTime_def)
  have c: "0 \<le> lives p \<longrightarrow> 0 \<le> lives ((takeDamage ^^ n) p) \<and> 0 \<le> lives (run es p)"
    using lives_run_nonneg [of p "replicate n Damage"] lives_run_nonneg [of p es]
    by (simp add: run_replicate_Damage)
  have d: "lives p = 0 \<longrightarrow> lives ((takeDamage ^^ n) p) = 0 \<and> lives (run es p) = 0"
    using lives_run_dead [of p "replicate n Damage"] lives_run_dead [of p es]
    by (simp add: run_replicate_Damage)
  from a b c d show ?thesis by blast
qed

theorem takeDamage_gate_witness:
  "(\<not> (damageCooldown newCowboyPlayer > 0 \<or> lives newCowboyPlayer = 0)
      \<and> 0 \<le> lives newCowboyPlayer)
   \<and> takeDamage newCowboyPlayer = newCowboyPlayer\<lparr>lives := 2, damageCooldown := 1\<rparr>
   \<and> 0 \<le> lives ((takeDamage ^^ 5) newCowboyPlayer)
   \<and> 0 \<le> lives (run [Damage, Tick 2 noInput, Damage] newCowboyPlayer)
   \<and> (damageCooldown (newCowboyPlayer\<lparr>lives := 0, damageCooldown := 1\<rparr>) > 0
      \<and> lives (newCowboyPlayer\<lparr>lives := 0, damageCooldown := 1\<rparr>) = 0)
   \<and> takeDamage (newCowboyPlayer\<lparr>lives := 0, damageCooldown := 1\<rparr>)
       = newCowboyPlayer\<lparr>lives := 0, damageCooldown := 1\<rparr>
   \<and> lives ((takeDamage ^^ 5) (newCowboyPlayer\<lparr>lives := 0, damageCooldown := 1\<rparr>)) = 0
   \<and> lives (run [Damage, Tick 2 noInput, Damage]
        (newCowboyPlayer\<lparr>lives := 0, damageCooldown := 1\<rparr>)) = 0"
proof -
  have h1: "\<not> (damageCooldown newCowboyPlayer > 0 \<or> lives newCowboyPlayer = 0)
      \<and> 0 \<le> lives newCowboyPlayer"
    and l1: "lives newCowboyPlayer - 1 = 2"
    by (simp_all add: newCowboyPlayer_def)
  have h2: "damageCooldown (newCowboyPlayer\<lparr>lives := 0, damageCooldown := 1\<rparr>) > 0
      \<and> lives (newCowboyPlayer\<lparr>lives := 0, damageCooldown := 1\<rparr>) = 0"
    by simp
  show ?thesis
    using takeDamage_gate [of newCowboyPlayer 5 "[Damage, Tick 2 noInput, Damage]"]
      takeDamage_gate [of "newCowboyPlayer\<lparr>lives := 0, damageCooldown := 1\<rparr>" 5
        "[Damage, Tick 2 noInput, Damage]"] h1 h2 l1
    by metis
qed

subsection \<open>C2\<close>

text \<open>
  C2.  In a tick that starts with a cooldown of \<open>0\<close> and a life left, if the player,
  once moved by its own update, collides with two or more cacti, then the \<open>takeDamage()\<close>
  calls of the tick (one for each colliding cactus) have the effect of a single one: the
  player ends the tick as after one \<open>takeDamage()\<close>, with one life less and the cooldown
  at the positive cooldown time, and a further call is rejected.
\<close>

theorem multi_hazard_single_hit:
  "damageCooldown (player g) = 0 \<and> 0 < lives (player g)
     \<and> 2 \<le> collidingHazards (position (update deltaTime (envInput env) (player g))) g
   \<longrightarrow>
     player (RanchGame_update deltaTime env g)
       = (takeDamage ^^ collidingHazards (position (update deltaTime (envInput env) (player g))) g)
           (update deltaTime (envInput env) (player g))
     \<and> player (RanchGame_update deltaTime env g)
       = takeDamage (update deltaTime (envInput env) (player g))
     \<and> lives (player (RanchGame_update deltaTime env g)) = lives (player g) - 1
     \<and> damageCooldown (player (RanchGame_update deltaTime env g)) = damageCooldownTime
     \<and> 0 < damageCooldown (player (RanchGame_update deltaTime env g))
     \<and> takeDamage (player (RanchGame_update deltaTime env g))
       = player (RanchGame_update deltaTime env g)"
proof
  let ?p = "update deltaTime (envInput env) (player g)"
  let ?k = "collidingHazards (position ?p) g"
  assume h: "damageCooldown (player g) = 0 \<and> 0 < lives (player g) \<and> 2 \<le> ?k"
  have cd: "damageCooldown ?p \<le> 0" and lv: "0 < lives ?p" "lives ?p = lives (player g)"
    using h by (simp_all add: damageCooldown_update)
  have all: "player (RanchGame_update deltaTime env g) = (takeDamage ^^ ?k) ?p"
    by (simp add: player_RanchGame_update player_hazardPhase)
  obtain j where j: "?k = Suc j"
    using h by (cases ?k) simp_all
  have one: "(takeDamage ^^ ?k) ?p = takeDamage ?p"
    unfolding j using cd lv(1) by (rule takeDamage_once)
  have res: "lives (takeDamage ?p) = lives (player g) - 1"
    "damageCooldown (takeDamage ?p) = damageCooldownTime"
    using cd lv by (simp_all add: takeDamage_def)
  have pos: "0 < damageCooldown (takeDamage ?p)"
    using res by (simp add: damageCooldownTime_def)
  have rej: "takeDamage (takeDamage ?p) = takeDamage ?p"
    using pos by (rule takeDamage_rejected)
  show "player (RanchGame_update deltaTime env g) = (takeDamage ^^ ?k) ?p
     \<and> player (RanchGame_update deltaTime env g) = takeDamage ?p
     \<and> lives (player (RanchGame_update deltaTime env g)) = lives (player g) - 1
     \<and> damageCooldown (player (RanchGame_update deltaTime env g)) = damageCooldownTime
     \<and> 0 < damageCooldown (player (RanchGame_update deltaTime env g))
     \<and> takeDamage (player (RanchGame_update deltaTime env g))
       = player (RanchGame_update deltaTime env g)"
    using all one res pos rej by simp
qed

theorem multi_hazard_single_hit_witness:
  "(damageCooldown (player sampleGame) = 0 \<and> 0 < lives (player sampleGame)
      \<and> 2 \<le> collidingHazards
            (position (update 0.016 (envInput sampleEnv) (player sampleGame))) sampleGame)
   \<and> lives (player (RanchGame_update 0.016 sampleEnv sampleGame)) = 2
   \<and> damageCooldown (player (RanchGame_update 0.016 sampleEnv sampleGame)) = 1
   \<and> takeDamage (player (RanchGame_update 0.016 sampleEnv sampleGame))
       = player (RanchGame_update 0.016 sampleEnv sampleGame)"
proof -
  have h: "damageCooldown (player sampleGame) = 0 \<and> 0 < lives (player sampleGame)
      \<and> 2 \<le> collidingHazards
            (position (update 0.016 (envInput sampleEnv) (player sampleGame))) sampleGame"
    unfolding sample_position sample_collisions
    by (simp add: sampleGame_def newCowboyPlayer_def)
  have l: "lives (player sampleGame) - 1 = 2" "damageCooldownTime = 1"
    by (simp_all add: sampleGame_def newCowboyPlayer_def damageCooldownTime_def)
  have c: "lives (player (RanchGame_update 0.016 sampleEnv sampleGame)) = lives (player sampleGame) - 1
     \<and> damageCooldown (player (RanchGame_update 0.016 sampleEnv sampleGame)) = damageCooldownTime
     \<and> takeDamage (player (RanchGame_update 0.016 sampleEnv sampleGame))
       = player (RanchGame_update 0.016 sampleEnv sampleGame)"
    using multi_hazard_single_hit [of sampleGame "0.016" sampleEnv] h by blast
  from h c l show ?thesis by simp
qed

subsection \<open>C3\<close>

text \<open>
  C3 (as the code has it).  From a state with a life left and an expired cooldown, a
  \<open>takeDamage()\<close> call followed by any history of further calls and ticks
  (\<open>deltaTime \<ge> 0\<close>) whose ticks sum to less than the cooldown time takes exactly one
  life in total, however many calls the history holds.
\<close>

theorem cooldown_window_single_hit:
  "ticksWithin damageCooldownTime es \<and> elapsedTime es < damageCooldownTime
     \<and> damageCooldown p \<le> 0 \<and> 0 < lives p \<longrightarrow>
   lives (run (Damage # es) p) = lives p - 1"
proof
  assume h: "ticksWithin damageCooldownTime es \<and> elapsedTime es < damageCooldownTime
     \<and> damageCooldown p \<le> 0 \<and> 0 < lives p"
  have "damageCooldown (takeDamage p) = damageCooldownTime" "lives (takeDamage p) = lives p - 1"
    using h by (simp_all add: takeDamage_def)
  then show "lives (run (Damage # es) p) = lives p - 1"
    using gate_closed_run [of damageCooldownTime es "takeDamage p"] h by simp
qed

theorem cooldown_window_single_hit_witness:
  "(ticksWithin damageCooldownTime [Tick 0.3 noInput, Damage, Tick 0.6 noInput, Damage]
    \<and> elapsedTime [Tick 0.3 noInput, Damage, Tick 0.6 noInput, Damage] < damageCooldownTime
    \<and> damageCooldown newCowboyPlayer \<le> 0 \<and> 0 < lives newCowboyPlayer)
   \<and> lives (run [Damage, Tick 0.3 noInput, Damage, Tick 0.6 noInput, Damage] newCowboyPlayer) = 2"
proof -
  have h: "ticksWithin damageCooldownTime [Tick 0.3 noInput, Damage, Tick 0.6 noInput, Damage]
    \<and> elapsedTime [Tick 0.3 noInput, Damage, Tick 0.6 noInput, Damage] < damageCooldownTime
    \<and> damageCooldown newCowboyPlayer \<le> 0 \<and> 0 < lives newCowboyPlayer"
    by (simp add: damageCooldownTime_def newCowboyPlayer_def)
  have l: "lives newCowboyPlayer - 1 = 2" by (simp add: newCowboyPlayer_def)
  show ?thesis
    using cooldown_window_single_hit
      [of "[Tick 0.3 noInput, Damage, Tick 0.6 noInput, Damage]" newCowboyPlayer] h l
    by simp
qed

text \<open>
  C3 as stated fails: three calls, each \<open>0.6\<close> seconds after the one before (less than
  the cooldown time \<open>1.0\<close>), take two lives, because the third call comes \<open>1.2\<close>
  seconds after the accepted first one.
\<close>

theorem spaced_calls_counterexample:
  "(0.6::real) < damageCooldownTime \<and> lives newCowboyPlayer = 3
   \<and> lives (run [Damage, Tick 0.6 noInput, Damage, Tick 0.6 noInput, Damage] newCowboyPlayer) = 1
   \<and> lives (run [Damage, Tick 0.6 noInput, Damage, Tick 0.6 noInput, Damage] newCowboyPlayer)
       \<noteq> lives newCowboyPlayer - 1"
  by (simp add: lives_takeDamage damageCooldown_update cooldown_takeDamage newCowboyPlayer_def
      damageCooldownTime_def)

subsection \<open>C4\<close>

text \<open>
  C4 (as the code has it).  The tick subtracts \<open>deltaTime\<close> from the cooldown only while
  the cooldown is positive, and does not floor the result: the new value is
  \<open>damageCooldown - deltaTime\<close> when \<open>damageCooldown > 0\<close> and the old value otherwise.
  So for \<open>deltaTime \<ge> 0\<close> the cooldown never grows in a tick, a non-negative cooldown
  ends the tick at or above \<open>- deltaTime\<close>, and along any history whose ticks have
  \<open>0 \<le> deltaTime \<le> D\<close> a cooldown that starts at or above \<open>- D\<close> stays there.
\<close>

theorem update_cooldown_unfloored:
  "damageCooldown (update deltaTime inp p)
     = (if damageCooldown p > 0 then damageCooldown p - deltaTime else damageCooldown p)
   \<and> (0 \<le> deltaTime \<longrightarrow> damageCooldown (update deltaTime inp p) \<le> damageCooldown p)
   \<and> (0 \<le> deltaTime \<and> 0 \<le> damageCooldown p \<longrightarrow>
        - deltaTime \<le> damageCooldown (update deltaTime inp p))
   \<and> (ticksWithin D es \<and> 0 \<le> D \<and> - D \<le> damageCooldown p \<longrightarrow>
        - D \<le> damageCooldown (run es p))"
proof -
  have a: "damageCooldown (update deltaTime inp p)
     = (if damageCooldown p > 0 then damageCooldown p - deltaTime else damageCooldown p)"
    by (rule damageCooldown_update)
  have d: "ticksWithin D es \<and> 0 \<le> D \<and> - D \<le> damageCooldown p \<longrightarrow>
        - D \<le> damageCooldown (run es p)"
    using cooldown_run_lower [of D es p] by blast
  from a d show ?thesis by auto
qed

theorem update_cooldown_unfloored_witness:
  "((0::real) \<le> 0.6 \<and> 0 \<le> damageCooldown (newCowboyPlayer\<lparr>damageCooldown := 0.4\<rparr>))
   \<and> damageCooldown (update 0.6 noInput (newCowboyPlayer\<lparr>damageCooldown := 0.4\<rparr>)) = - 0.2
   \<and> damageCooldown (update 0.6 noInput (newCowboyPlayer\<lparr>damageCooldown := 0.4\<rparr>)) \<le> 0.4
   \<and> - 0.6 \<le> damageCooldown (update 0.6 noInput (newCowboyPlayer\<lparr>damageCooldown := 0.4\<rparr>))
   \<and> (ticksWithin 0.6 [Damage, Tick 0.6 noInput, Tick 0.6 noInput]
      \<and> - 0.6 \<le> damageCooldown newCowboyPlayer)
   \<and> - 0.6 \<le> damageCooldown (run [Damage, Tick 0.6 noInput, Tick 0.6 noInput] newCowboyPlayer)"
proof -
  have t: "ticksWithin 0.6 [Damage, Tick 0.6 noInput, Tick 0.6 noInput] \<and> (0::real) \<le> 0.6
      \<and> - 0.6 \<le> damageCooldown newCowboyPlayer"
    by (simp add: newCowboyPlayer_def)
  have c: "damageCooldown (newCowboyPlayer\<lparr>damageCooldown := 0.4\<rparr>) = 0.4"
    by simp
  have r: "- 0.6 \<le> damageCooldown (run [Damage, Tick 0.6 noInput, Tick 0.6 noInput] newCowboyPlayer)"
    using update_cooldown_unfloored [of 0 noInput newCowboyPlayer "0.6"
        "[Damage, Tick 0.6 noInput, Tick 0.6 noInput]"] t by blast
  have u: "damageCooldown (update 0.6 noInput (newCowboyPlayer\<lparr>damageCooldown := 0.4\<rparr>)) = - 0.2"
    using update_cooldown_unfloored [of "0.6" noInput "newCowboyPlayer\<lparr>damageCooldown := 0.4\<rparr>"
        0 "[]"] c by simp
  show ?thesis using t c r u by simp
qed

text \<open>
  C4 as stated fails: after one accepted hit and two ticks of \<open>0.6\<close> seconds the
  cooldown of a new player is \<open>- 0.2\<close>.
\<close>

theorem cooldown_negative_counterexample:
  "(0::real) \<le> 0.6
   \<and> damageCooldown (run [Damage, Tick 0.6 noInput, Tick 0.6 noInput] newCowboyPlayer) = - 0.2
   \<and> \<not> 0 \<le> damageCooldown (run [Damage, Tick 0.6 noInput, Tick 0.6 noInput] newCowboyPlayer)"
  by (simp add: damageCooldown_update cooldown_takeDamage newCowboyPlayer_def
      damageCooldownTime_def)

subsection \<open>C5\<close>

text \<open>
  C5.  For a Choya and for a BarrelCactus, \<open>checkCollision\<close> is true exactly when the
  model has finished loading (the mesh is set and \<open>modelLoaded\<close> holds) and the 3D
  distance from the actor position to the mesh position raised by \<open>0.6\<close> (Choya) or
  \<open>0.3 * size\<close> (BarrelCactus) is strictly below \<open>collisionRadius + actorRadius\<close>.
  So it is false for a cactus that has not finished loading, wherever the actor is, false
  when the distance equals the radius sum, false for a newly constructed cactus, and after
  \<open>loadModel\<close> it is the distance test with the radius scaled by the size.
\<close>

theorem checkCollision_iff:
  "Choya_checkCollision c a r
     = (mesh c \<noteq> None \<and> modelLoaded c
        \<and> sqrt ((vx (meshPosition (the (mesh c))) - vx a) * (vx (meshPosition (the (mesh c))) - vx a)
              + (vy (meshPosition (the (mesh c))) + 0.6 - vy a)
                * (vy (meshPosition (the (mesh c))) + 0.6 - vy a)
              + (vz (meshPosition (the (mesh c))) - vz a) * (vz (meshPosition (the (mesh c))) - vz a))
            < collisionRadius c + r)
   \<and> BarrelCactus_checkCollision c a r
     = (mesh c \<noteq> None \<and> modelLoaded c
        \<and> sqrt ((vx (meshPosition (the (mesh c))) - vx a) * (vx (meshPosition (the (mesh c))) - vx a)
              + (vy (meshPosition (the (mesh c))) + 0.3 * cactusSize c - vy a)
                * (vy (meshPosition (the (mesh c))) + 0.3 * cactusSize c - vy a)
              + (vz (meshPosition (the (mesh c))) - vz a) * (vz (meshPosition (the (mesh c))) - vz a))
            < collisionRadius c + r)
   \<and> (mesh c = None \<or> \<not> modelLoaded c \<longrightarrow>
        \<not> Choya_checkCollision c a r \<and> \<not> BarrelCactus_checkCollision c a r)
   \<and> (distanceTo \<lparr>vx = vx (meshPosition (the (mesh c))), vy = vy (meshPosition (the (mesh c))) + 0.6,
                   vz = vz (meshPosition (the (mesh c)))\<rparr> a = collisionRadius c + r
        \<longrightarrow> \<not> Choya_checkCollision c a r)
   \<and> (distanceTo \<lparr>vx = vx (meshPosition (the (mesh c))),
                   vy = vy (meshPosition (the (mesh c))) + 0.3 * cactusSize c,
                   vz = vz (meshPosition (the (mesh c)))\<rparr> a = collisionRadius c + r
        \<longrightarrow> \<not> BarrelCactus_checkCollision c a r)
   \<and> \<not> Choya_checkCollision (newChoya pos sz) a r
   \<and> \<not> BarrelCactus_checkCollision (newBarrelCactus pos sz) a r
   \<and> Choya_checkCollision (Choya_loadModel c) a r
       = (distanceTo \<lparr>vx = vx (cactusPosition c), vy = 0.6, vz = vz (cactusPosition c)\<rparr> a
            < 1.2 * cactusSize c + r)
   \<and> BarrelCactus_checkCollision (BarrelCactus_loadModel c) a r
       = (distanceTo \<lparr>vx = vx (cactusPosition c), vy = 0.3 * cactusSize c,
                      vz = vz (cactusPosition c)\<rparr> a
            < 0.6 * cactusSize c + r)"
  by (cases "mesh c")
    (simp_all add: Choya_checkCollision_def BarrelCactus_checkCollision_def distanceTo_def
      newChoya_def newBarrelCactus_def Choya_loadModel_def BarrelCactus_loadModel_def Let_def)


theorem checkCollision_iff_witness:
  "(mesh (newChoya \<lparr>vx = 10, vy = 0, vz = 5\<rparr> 0.5) = None
      \<or> \<not> modelLoaded (newChoya \<lparr>vx = 10, vy = 0, vz = 5\<rparr> 0.5))
   \<and> \<not> Choya_checkCollision (newChoya \<lparr>vx = 10, vy = 0, vz = 5\<rparr> 0.5)
         \<lparr>vx = 10, vy = 0.6, vz = 5\<rparr> 0.4
   \<and> Choya_checkCollision (Choya_loadModel (newChoya \<lparr>vx = 10, vy = 0, vz = 5\<rparr> 0.5))
         \<lparr>vx = 10, vy = 0.6, vz = 5\<rparr> 0.4
   \<and> distanceTo \<lparr>vx = 10, vy = 0 + 0.6, vz = 5\<rparr> \<lparr>vx = 10, vy = 1.6, vz = 5\<rparr>
       = collisionRadius (Choya_loadModel (newChoya \<lparr>vx = 10, vy = 0, vz = 5\<rparr> 0.5)) + 0.4
   \<and> \<not> Choya_checkCollision (Choya_loadModel (newChoya \<lparr>vx = 10, vy = 0, vz = 5\<rparr> 0.5))
         \<lparr>vx = 10, vy = 1.6, vz = 5\<rparr> 0.4
   \<and> distanceTo \<lparr>vx = 5, vy = 0 + 0.3 * 0.05, vz = 3\<rparr> \<lparr>vx = 5, vy = 1.015, vz = 3\<rparr>
       = collisionRadius (BarrelCactus_loadModel (newBarrelCactus \<lparr>vx = 5, vy = 0, vz = 3\<rparr> 0.05))
         + 0.97
   \<and> \<not> BarrelCactus_checkCollision
         (BarrelCactus_loadModel (newBarrelCactus \<lparr>vx = 5, vy = 0, vz = 3\<rparr> 0.05))
         \<lparr>vx = 5, vy = 1.015, vz = 3\<rparr> 0.97"
proof -
  have n: "mesh (newChoya \<lparr>vx = 10, vy = 0, vz = 5\<rparr> 0.5) = None"
    by (simp add: newChoya_def)
  have d0: "distanceTo \<lparr>vx = 10, vy = 0.6, vz = 5\<rparr> \<lparr>vx = 10, vy = 0.6, vz = 5\<rparr> = 0"
    by (simp add: distanceTo_def)
  have d1: "distanceTo \<lparr>vx = 10, vy = 0 + 0.6, vz = 5\<rparr> \<lparr>vx = 10, vy = 1.6, vz = 5\<rparr> = 1"
    by (simp add: distanceTo_def)
  have d2: "distanceTo \<lparr>vx = 5, vy = 0 + 0.3 * 0.05, vz = 3\<rparr> \<lparr>vx = 5, vy = 1.015, vz = 3\<rparr> = 1"
    by (simp add: distanceTo_def)
  have c1: "collisionRadius (Choya_loadModel (newChoya \<lparr>vx = 10, vy = 0, vz = 5\<rparr> 0.5)) = 0.6"
    "meshPosition (the (mesh (Choya_loadModel (newChoya \<lparr>vx = 10, vy = 0, vz = 5\<rparr> 0.5))))
       = \<lparr>vx = 10, vy = 0, vz = 5\<rparr>"
    "cactusPosition (newChoya \<lparr>vx = 10, vy = 0, vz = 5\<rparr> 0.5) = \<lparr>vx = 10, vy = 0, vz = 5\<rparr>"
    "cactusSize (newChoya \<lparr>vx = 10, vy = 0, vz = 5\<rparr> 0.5) = 0.5"
    by (simp_all add: Choya_loadModel_def newChoya_def)
  have c2: "collisionRadius (BarrelCactus_loadModel (newBarrelCactus \<lparr>vx = 5, vy = 0, vz = 3\<rparr> 0.05))
       = 0.03"
    "meshPosition (the (mesh (BarrelCactus_loadModel
        (newBarrelCactus \<lparr>vx = 5, vy = 0, vz = 3\<rparr> 0.05)))) = \<lparr>vx = 5, vy = 0, vz = 3\<rparr>"
    "cactusSize (BarrelCactus_loadModel (newBarrelCactus \<lparr>vx = 5, vy = 0, vz = 3\<rparr> 0.05)) = 0.05"
    by (simp_all add: BarrelCactus_loadModel_def newBarrelCactus_def)
  have a: "\<not> Choya_checkCollision (newChoya \<lparr>vx = 10, vy = 0, vz = 5\<rparr> 0.5)
         \<lparr>vx = 10, vy = 0.6, vz = 5\<rparr> 0.4"
    using checkCollision_iff [of "newChoya \<lparr>vx = 10, vy = 0, vz = 5\<rparr> 0.5"
        "\<lparr>vx = 10, vy = 0.6, vz = 5\<rparr>" "0.4"] n by blast
  have b: "Choya_checkCollision (Choya_loadModel (newChoya \<lparr>vx = 10, vy = 0, vz = 5\<rparr> 0.5))
         \<lparr>vx = 10, vy = 0.6, vz = 5\<rparr> 0.4"
    using checkCollision_iff [of "newChoya \<lparr>vx = 10, vy = 0, vz = 5\<rparr> 0.5"
        "\<lparr>vx = 10, vy = 0.6, vz = 5\<rparr>" "0.4"] d0 c1 by simp
  have c: "\<not> Choya_checkCollision (Choya_loadModel (newChoya \<lparr>vx = 10, vy = 0, vz = 5\<rparr> 0.5))
         \<lparr>vx = 10, vy = 1.6, vz = 5\<rparr> 0.4"
    using checkCollision_iff [of "Choya_loadModel (newChoya \<lparr>vx = 10, vy = 0, vz = 5\<rparr> 0.5)"
        "\<lparr>vx = 10, vy = 1.6, vz = 5\<rparr>" "0.4"] d1 c1 by simp
  have d: "\<not> BarrelCactus_checkCollision
         (BarrelCactus_loadModel (newBarrelCactus \<lparr>vx = 5, vy = 0, vz = 3\<rparr> 0.05))
         \<lparr>vx = 5, vy = 1.015, vz = 3\<rparr> 0.97"
    using checkCollision_iff [of
        "BarrelCactus_loadModel (newBarrelCactus \<lparr>vx = 5, vy = 0, vz = 3\<rparr> 0.05)"
        "\<lparr>vx = 5, vy = 1.015, vz = 3\<rparr>" "0.97"] d2 c2 by simp
  show ?thesis using n a b c d d1 d2 c1 c2 by simp
qed

subsection \<open>C6\<close>

text \<open>
  C6.  A player at rest above the ground plane, ticked with no jump input, reaches the
  grounded state (\<open>position.y = groundY\<close>, \<open>velocity.y = 0\<close>, \<open>onGround\<close>) within
  a bounded number of ticks and stays in it: after any \<open>n\<close> ticks with
  \<open>0.015 * n * (n + 1) / 2\<close> at least the starting height above \<open>groundY\<close>, and in
  particular after \<open>settleTicks\<close> of the starting height, every longer history ends
  grounded; and a grounded player stays grounded.
\<close>

theorem grounding_converges:
  "(noJumpTicks es \<and> vy (velocity p) = 0 \<and> groundY < vy (position p)
      \<and> n \<le> length es \<and> vy (position p) - groundY \<le> fallen n
    \<longrightarrow> vy (position (run es p)) = groundY \<and> vy (velocity (run es p)) = 0
        \<and> onGround (run es p))
   \<and> (noJumpTicks es \<and> vy (velocity p) = 0 \<and> groundY < vy (position p)
      \<and> settleTicks (vy (position p)) \<le> length es
    \<longrightarrow> grounded (run es p))
   \<and> (noJumpTicks es \<and> grounded p \<longrightarrow> grounded (run es p))
   \<and> groundY = 0.3 \<and> gravity = - 0.015"
proof -
  have main: "grounded (run es p)"
    if h: "noJumpTicks es" "vy (velocity p) = 0" "groundY < vy (position p)"
      "n \<le> length es" "vy (position p) - groundY \<le> fallen n" for n
  proof -
    have "falling (vy (position p)) 0 p"
      using h by (simp add: falling_def fallen_def)
    then have "grounded (run es p) \<or> falling (vy (position p)) (0 + length es) (run es p)"
      using fall_run [of es p "vy (position p)" 0] h by blast
    moreover have "\<not> falling (vy (position p)) (0 + length es) (run es p)"
    proof
      assume f: "falling (vy (position p)) (0 + length es) (run es p)"
      then have "groundY < vy (position p) - fallen (length es)"
        by (simp add: falling_def)
      moreover have "fallen n \<le> fallen (length es)"
        using h fallen_mono by simp
      ultimately show False using h by linarith
    qed
    ultimately show ?thesis by blast
  qed
  have c: "noJumpTicks es \<and> grounded p \<longrightarrow> grounded (run es p)"
    using grounded_run [of es p] by blast
  have b: "noJumpTicks es \<and> vy (velocity p) = 0 \<and> groundY < vy (position p)
      \<and> settleTicks (vy (position p)) \<le> length es
    \<longrightarrow> grounded (run es p)"
    using main [of "settleTicks (vy (position p))"] settleTicks_enough [of "vy (position p)"]
    by blast
  have a: "noJumpTicks es \<and> vy (velocity p) = 0 \<and> groundY < vy (position p)
      \<and> n \<le> length es \<and> vy (position p) - groundY \<le> fallen n
    \<longrightarrow> vy (position (run es p)) = groundY \<and> vy (velocity (run es p)) = 0
        \<and> onGround (run es p)"
    using main [of n] by (simp add: grounded_def)
  from a b c show ?thesis by (simp add: groundY_def gravity_def)
qed

theorem grounding_converges_witness:
  "(noJumpTicks (replicate 114 (Tick 0.016 noInput))
    \<and> vy (velocity (newCowboyPlayer\<lparr>position := \<lparr>vx = 0, vy = 2, vz = 0\<rparr>\<rparr>)) = 0
    \<and> groundY < vy (position (newCowboyPlayer\<lparr>position := \<lparr>vx = 0, vy = 2, vz = 0\<rparr>\<rparr>))
    \<and> 15 \<le> length (replicate 114 (Tick 0.016 noInput))
    \<and> vy (position (newCowboyPlayer\<lparr>position := \<lparr>vx = 0, vy = 2, vz = 0\<rparr>\<rparr>)) - groundY
        \<le> fallen 15
    \<and> settleTicks (vy (position (newCowboyPlayer\<lparr>position := \<lparr>vx = 0, vy = 2, vz = 0\<rparr>\<rparr>)))
        \<le> length (replicate 114 (Tick 0.016 noInput))
    \<and> grounded (newCowboyPlayer\<lparr>onGround := True\<rparr>))
   \<and> vy (position (run (replicate 114 (Tick 0.016 noInput))
        (newCowboyPlayer\<lparr>position := \<lparr>vx = 0, vy = 2, vz = 0\<rparr>\<rparr>))) = 0.3
   \<and> vy (velocity (run (replicate 114 (Tick 0.016 noInput))
        (newCowboyPlayer\<lparr>position := \<lparr>vx = 0, vy = 2, vz = 0\<rparr>\<rparr>))) = 0
   \<and> onGround (run (replicate 114 (Tick 0.016 noInput))
        (newCowboyPlayer\<lparr>position := \<lparr>vx = 0, vy = 2, vz = 0\<rparr>\<rparr>))
   \<and> grounded (run (replicate 114 (Tick 0.016 noInput))
        (newCowboyPlayer\<lparr>position := \<lparr>vx = 0, vy = 2, vz = 0\<rparr>\<rparr>))
   \<and> grounded (run (replicate 114 (Tick 0.016 noInput)) (newCowboyPlayer\<lparr>onGround := True\<rparr>))"
proof -
  have q: "noJumpTicks (replicate 114 (Tick 0.016 noInput))"
    by (rule noJumpTicks_replicate) (simp add: shouldJump_def noInput_def)
  have s: "vy (velocity (newCowboyPlayer\<lparr>position := \<lparr>vx = 0, vy = 2, vz = 0\<rparr>\<rparr>)) = 0"
    "groundY < vy (position (newCowboyPlayer\<lparr>position := \<lparr>vx = 0, vy = 2, vz = 0\<rparr>\<rparr>))"
    "vy (position (newCowboyPlayer\<lparr>position := \<lparr>vx = 0, vy = 2, vz = 0\<rparr>\<rparr>)) - groundY
        \<le> fallen 15"
    "grounded (newCowboyPlayer\<lparr>onGround := True\<rparr>)"
    by (simp_all add: newCowboyPlayer_def groundY_def fallen_def gravity_def grounded_def)
  have l: "15 \<le> length (replicate 114 (Tick 0.016 noInput))"
    by simp
  have t: "settleTicks (vy (position (newCowboyPlayer\<lparr>position := \<lparr>vx = 0, vy = 2, vz = 0\<rparr>\<rparr>)))
        \<le> length (replicate 114 (Tick 0.016 noInput))"
    by (simp add: settleTicks_def groundY_def gravity_def ceiling_le_iff)
  show ?thesis
    using grounding_converges [of "replicate 114 (Tick 0.016 noInput)"
        "newCowboyPlayer\<lparr>position := \<lparr>vx = 0, vy = 2, vz = 0\<rparr>\<rparr>" 15]
      grounding_converges [of "replicate 114 (Tick 0.016 noInput)"
        "newCowboyPlayer\<lparr>onGround := True\<rparr>" 0] q s l t
    by simp
qed

subsection \<open>C7\<close>

text \<open>
  C7.  A jump input on a grounded player sets \<open>velocity.y\<close> to \<open>jumpForce\<close> and clears
  \<open>onGround\<close>; on a player that is not grounded the jump handling changes nothing, and
  \<open>handleInput\<close> leaves the velocity and \<open>onGround\<close> as they were.
\<close>

theorem handleInput_jump:
  "(shouldJump inp \<and> onGround p \<longrightarrow>
      vy (velocity (handleInput inp p)) = jumpForce \<and> \<not> onGround (handleInput inp p))
   \<and> (shouldJump inp \<and> \<not> onGround p \<longrightarrow>
      applyJump inp (applyMovement inp p) = applyMovement inp p
      \<and> velocity (handleInput inp p) = velocity p
      \<and> \<not> onGround (handleInput inp p))"
  by (simp add: handleInput_def applyCameraControl_def applyJump_def applyMovement_def Let_def)

theorem handleInput_jump_witness:
  "(shouldJump (noInput\<lparr>keySpace := True\<rparr>) \<and> onGround (newCowboyPlayer\<lparr>onGround := True\<rparr>))
   \<and> vy (velocity (handleInput (noInput\<lparr>keySpace := True\<rparr>) (newCowboyPlayer\<lparr>onGround := True\<rparr>)))
     = 0.4
   \<and> \<not> onGround (handleInput (noInput\<lparr>keySpace := True\<rparr>) (newCowboyPlayer\<lparr>onGround := True\<rparr>))
   \<and> \<not> onGround newCowboyPlayer
   \<and> velocity (handleInput (noInput\<lparr>keySpace := True\<rparr>) newCowboyPlayer)
     = \<lparr>vx = 0, vy = 0, vz = 0\<rparr>"
proof -
  have h: "shouldJump (noInput\<lparr>keySpace := True\<rparr>)"
    by (simp add: shouldJump_def noInput_def)
  have g: "onGround (newCowboyPlayer\<lparr>onGround := True\<rparr>)" "\<not> onGround newCowboyPlayer"
    "velocity newCowboyPlayer = \<lparr>vx = 0, vy = 0, vz = 0\<rparr>"
    by (simp_all add: newCowboyPlayer_def)
  show ?thesis
    using handleInput_jump [of "noInput\<lparr>keySpace := True\<rparr>" "newCowboyPlayer\<lparr>onGround := True\<rparr>"]
      handleInput_jump [of "noInput\<lparr>keySpace := True\<rparr>" newCowboyPlayer] h g
    by (simp add: jumpForce_def)
qed

subsection \<open>C8\<close>

text \<open>
  C8.  For a horse, a cow and a chicken, one tick adds \<open>deltaTime\<close> to \<open>wanderTimer\<close>;
  when the sum exceeds the threshold drawn for the species the heading becomes
  \<open>r2 * 2\<pi>\<close>, which lies in \<open>[0, 2\<pi>)\<close> for a draw \<open>r2\<close> in \<open>[0, 1)\<close>, and the timer is
  reset.  In every tick, whatever the timer did, the position moves by the species speed
  along the unit vector \<open>(sin heading, cos heading)\<close>.  When the new position is farther
  than \<open>80\<close> from the origin the heading is set to \<open>atan2(-x, -z)\<close>, whose unit vector
  is the one from the position towards the origin; otherwise the heading is kept.
\<close>

theorem wander_tick:
  "wanderTimer (wanderTurn lo width deltaTime r1 r2 a)
     = (if wanderTimer a + deltaTime > lo + r1 * width then 0 else wanderTimer a + deltaTime)
   \<and> wanderDirection (wanderTurn lo width deltaTime r1 r2 a)
     = (if wanderTimer a + deltaTime > lo + r1 * width then r2 * pi * 2 else wanderDirection a)
   \<and> animalPosition (wanderTurn lo width deltaTime r1 r2 a) = animalPosition a
   \<and> (0 \<le> r2 \<and> r2 < 1 \<longrightarrow> 0 \<le> r2 * pi * 2 \<and> r2 * pi * 2 < 2 * pi)
   \<and> animalPosition (wanderMove v b)
     = \<lparr>vx = vx (animalPosition b) + sin (wanderDirection b) * v,
        vy = vy (animalPosition b),
        vz = vz (animalPosition b) + cos (wanderDirection b) * v\<rparr>
   \<and> (sin (wanderDirection b))\<^sup>2 + (cos (wanderDirection b))\<^sup>2 = 1
   \<and> wanderTimer (wanderMove v b) = wanderTimer b
   \<and> (maxDistance < sqrt ((vx (animalPosition (wanderMove v b)))\<^sup>2
                           + (vz (animalPosition (wanderMove v b)))\<^sup>2) \<longrightarrow>
        wanderDirection (wanderMove v b)
          = atan2 (- vx (animalPosition (wanderMove v b))) (- vz (animalPosition (wanderMove v b)))
        \<and> sin (wanderDirection (wanderMove v b))
          = - vx (animalPosition (wanderMove v b))
            / sqrt ((vx (animalPosition (wanderMove v b)))\<^sup>2
                    + (vz (animalPosition (wanderMove v b)))\<^sup>2)
        \<and> cos (wanderDirection (wanderMove v b))
          = - vz (animalPosition (wanderMove v b))
            / sqrt ((vx (animalPosition (wanderMove v b)))\<^sup>2
                    + (vz (animalPosition (wanderMove v b)))\<^sup>2))
   \<and> (\<not> maxDistance < sqrt ((vx (animalPosition (wanderMove v b)))\<^sup>2
                             + (vz (animalPosition (wanderMove v b)))\<^sup>2) \<longrightarrow>
        wanderDirection (wanderMove v b) = wanderDirection b)
   \<and> maxDistance = 80
   \<and> Horse_update deltaTime r1 r2 a = wanderMove 0.02 (wanderTurn 3 4 deltaTime r1 r2 a)
   \<and> Cow_update deltaTime r1 r2 a = wanderMove 0.01 (wanderTurn 4 5 deltaTime r1 r2 a)
   \<and> Chicken_update deltaTime r1 r2 a = wanderMove 0.015 (wanderTurn 1 2 deltaTime r1 r2 a)"
proof -
  let ?x = "vx (animalPosition (wanderMove v b))"
  let ?z = "vz (animalPosition (wanderMove v b))"
  have turn: "wanderTimer (wanderTurn lo width deltaTime r1 r2 a)
     = (if wanderTimer a + deltaTime > lo + r1 * width then 0 else wanderTimer a + deltaTime)
   \<and> wanderDirection (wanderTurn lo width deltaTime r1 r2 a)
     = (if wanderTimer a + deltaTime > lo + r1 * width then r2 * pi * 2 else wanderDirection a)
   \<and> animalPosition (wanderTurn lo width deltaTime r1 r2 a) = animalPosition a"
    by (simp add: wanderTurn_def Let_def)
  have rng: "0 \<le> r2 \<and> r2 < 1 \<longrightarrow> 0 \<le> r2 * pi * 2 \<and> r2 * pi * 2 < 2 * pi"
    by simp
  have pos: "animalPosition (wanderMove v b)
     = \<lparr>vx = vx (animalPosition b) + sin (wanderDirection b) * v,
        vy = vy (animalPosition b),
        vz = vz (animalPosition b) + cos (wanderDirection b) * v\<rparr>"
    by (simp add: wanderMove_def Let_def)
  have tm: "wanderTimer (wanderMove v b) = wanderTimer b"
    by (simp add: wanderMove_def Let_def)
  have dir: "wanderDirection (wanderMove v b)
     = (if maxDistance < sqrt (?x\<^sup>2 + ?z\<^sup>2) then atan2 (- ?x) (- ?z) else wanderDirection b)"
    by (simp add: wanderMove_def Let_def)
  have inward: "sin (atan2 (- ?x) (- ?z)) = - ?x / sqrt (?x\<^sup>2 + ?z\<^sup>2)
      \<and> cos (atan2 (- ?x) (- ?z)) = - ?z / sqrt (?x\<^sup>2 + ?z\<^sup>2)"
    if far: "maxDistance < sqrt (?x\<^sup>2 + ?z\<^sup>2)"
  proof -
    have nz: "- ?z \<noteq> 0 \<or> - ?x \<noteq> 0"
    proof (rule ccontr)
      assume "\<not> (- ?z \<noteq> 0 \<or> - ?x \<noteq> 0)"
      then have "sqrt (?x\<^sup>2 + ?z\<^sup>2) = 0" by simp
      then show False using far by (simp add: maxDistance_def)
    qed
    show ?thesis
      using sin_atan2 [OF nz] cos_atan2 [OF nz] by (simp add: add.commute)
  qed
  have out: "maxDistance < sqrt (?x\<^sup>2 + ?z\<^sup>2) \<longrightarrow>
        wanderDirection (wanderMove v b) = atan2 (- ?x) (- ?z)
        \<and> sin (wanderDirection (wanderMove v b)) = - ?x / sqrt (?x\<^sup>2 + ?z\<^sup>2)
        \<and> cos (wanderDirection (wanderMove v b)) = - ?z / sqrt (?x\<^sup>2 + ?z\<^sup>2)"
    using dir inward by simp
  have ins: "\<not> maxDistance < sqrt (?x\<^sup>2 + ?z\<^sup>2) \<longrightarrow>
        wanderDirection (wanderMove v b) = wanderDirection b"
    using dir by simp
  have unit: "(sin (wanderDirection b))\<^sup>2 + (cos (wanderDirection b))\<^sup>2 = 1"
    by simp
  have sp: "maxDistance = 80
   \<and> Horse_update deltaTime r1 r2 a = wanderMove 0.02 (wanderTurn 3 4 deltaTime r1 r2 a)
   \<and> Cow_update deltaTime r1 r2 a = wanderMove 0.01 (wanderTurn 4 5 deltaTime r1 r2 a)
   \<and> Chicken_update deltaTime r1 r2 a = wanderMove 0.015 (wanderTurn 1 2 deltaTime r1 r2 a)"
    by (simp add: maxDistance_def Horse_update_def Cow_update_def Chicken_update_def)
  from turn rng pos tm out ins unit sp show ?thesis by blast
qed

theorem wander_tick_witness:
  "((0::real) \<le> 0.25 \<and> (0.25::real) < 1)
   \<and> (0 \<le> 0.25 * pi * 2 \<and> 0.25 * pi * 2 < 2 * pi)
   \<and> maxDistance < sqrt ((vx (animalPosition (wanderMove 0.02 farAnimal)))\<^sup>2
                          + (vz (animalPosition (wanderMove 0.02 farAnimal)))\<^sup>2)
   \<and> animalPosition (wanderMove 0.02 farAnimal) = \<lparr>vx = 100, vy = 0, vz = 0.02\<rparr>
   \<and> wanderDirection (wanderMove 0.02 farAnimal) = atan2 (- 100) (- 0.02)
   \<and> \<not> maxDistance < sqrt ((vx (animalPosition (wanderMove 0.02 nearAnimal)))\<^sup>2
                            + (vz (animalPosition (wanderMove 0.02 nearAnimal)))\<^sup>2)
   \<and> wanderDirection (wanderMove 0.02 nearAnimal) = 0"
proof -
  have r: "(0::real) \<le> 0.25 \<and> (0.25::real) < 1"
    by simp
  have pf: "animalPosition (wanderMove 0.02 farAnimal) = \<lparr>vx = 100, vy = 0, vz = 0.02\<rparr>"
    using wander_tick [of 0 0 0 0 0 farAnimal "0.02" farAnimal] by (simp add: farAnimal_def)
  have pn: "animalPosition (wanderMove 0.02 nearAnimal) = \<lparr>vx = 5, vy = 0, vz = 8.02\<rparr>"
    using wander_tick [of 0 0 0 0 0 nearAnimal "0.02" nearAnimal] by (simp add: nearAnimal_def)
  have far: "maxDistance < sqrt ((vx (animalPosition (wanderMove 0.02 farAnimal)))\<^sup>2
                          + (vz (animalPosition (wanderMove 0.02 farAnimal)))\<^sup>2)"
    unfolding pf maxDistance_def by (rule real_less_rsqrt) (simp add: power2_eq_square)
  have near: "\<not> maxDistance < sqrt ((vx (animalPosition (wanderMove 0.02 nearAnimal)))\<^sup>2
                            + (vz (animalPosition (wanderMove 0.02 nearAnimal)))\<^sup>2)"
  proof -
    have "sqrt ((5::real)\<^sup>2 + 8.02\<^sup>2) \<le> 80"
      by (rule real_le_lsqrt) (simp_all add: power2_eq_square)
    then show ?thesis unfolding pn maxDistance_def by simp
  qed
  have d0: "wanderDirection nearAnimal = 0"
    by (simp add: nearAnimal_def)
  have c1: "wanderDirection (wanderMove 0.02 farAnimal)
      = atan2 (- vx (animalPosition (wanderMove 0.02 farAnimal)))
          (- vz (animalPosition (wanderMove 0.02 farAnimal)))"
    using wander_tick [of 0 0 0 0 "0.25" farAnimal "0.02" farAnimal] far by blast
  have c2: "wanderDirection (wanderMove 0.02 nearAnimal) = wanderDirection nearAnimal"
    using wander_tick [of 0 0 0 0 "0.25" nearAnimal "0.02" nearAnimal] near by blast
  have c3: "0 \<le> 0.25 * pi * 2 \<and> 0.25 * pi * 2 < 2 * pi"
    using wander_tick [of 0 0 0 0 "0.25" nearAnimal "0.02" nearAnimal] r by blast
  have c4: "wanderDirection (wanderMove 0.02 farAnimal) = atan2 (- 100) (- 0.02)"
    using c1 unfolding pf by simp
  from r c3 far pf c4 near c2 d0 show ?thesis by simp
qed

subsection \<open>C9\<close>

text \<open>
  C9.  For a game whose active spines each name their own mesh: after a tick the active
  spines are exactly those of the spines present after the cactus loops (the old ones and
  the ones created in this tick) with \<open>elapsed = now - startTime < fadeDuration\<close>, each
  with opacity \<open>1 - elapsed / fadeDuration\<close>; every spine with
  \<open>elapsed \<ge> fadeDuration\<close> is gone from the active list, detached from the player's
  mesh and disposed; the property of the hypothesis holds again after the tick.
  \<open>dispose\<close> empties the active list and detaches and disposes every spine that was in
  it, whatever its age.
\<close>

theorem spines_aged_each_tick:
  "spinesWellFormed g \<longrightarrow>
     activeSpines (RanchGame_update deltaTime env g)
       = filter (\<lambda>sd. agingNow env - startTime sd < fadeDuration sd)
           (activeSpines (hazardPhase deltaTime env g))
     \<and> set (activeSpines g) \<subseteq> set (activeSpines (hazardPhase deltaTime env g))
     \<and> (\<forall>sd \<in> set (activeSpines (RanchGame_update deltaTime env g)).
          agingNow env - startTime sd < fadeDuration sd
          \<and> opacity (spineMeshes (RanchGame_update deltaTime env g) ! spineMesh sd)
              = 1 - (agingNow env - startTime sd) / fadeDuration sd)
     \<and> (\<forall>sd \<in> set (activeSpines (hazardPhase deltaTime env g)).
          fadeDuration sd \<le> agingNow env - startTime sd \<longrightarrow>
            sd \<notin> set (activeSpines (RanchGame_update deltaTime env g))
            \<and> \<not> attached (spineMeshes (RanchGame_update deltaTime env g) ! spineMesh sd)
            \<and> disposed (spineMeshes (RanchGame_update deltaTime env g) ! spineMesh sd))
     \<and> spinesWellFormed (RanchGame_update deltaTime env g)
     \<and> activeSpines (RanchGame_dispose g) = []
     \<and> (\<forall>sd \<in> set (activeSpines g).
          \<not> attached (spineMeshes (RanchGame_dispose g) ! spineMesh sd)
          \<and> disposed (spineMeshes (RanchGame_dispose g) ! spineMesh sd))"
proof
  let ?h = "hazardPhase deltaTime env g"
  let ?g = "RanchGame_update deltaTime env g"
  let ?now = "agingNow env"
  assume wf: "spinesWellFormed g"
  have wh: "spinesWellFormed ?h" and sub: "set (activeSpines g) \<subseteq> set (activeSpines ?h)"
    using spines_hazardPhase [OF wf] by simp_all
  have act: "activeSpines ?g = filter (\<lambda>sd. ?now - startTime sd < fadeDuration sd) (activeSpines ?h)"
    by (simp add: RanchGame_update_def spines_agingPhase)
  have st: "spineMeshes ?g = spineMeshes (agingPhase ?now ?h)"
    by (simp add: RanchGame_update_def)
  have live: "\<forall>sd \<in> set (activeSpines ?g).
          ?now - startTime sd < fadeDuration sd
          \<and> opacity (spineMeshes ?g ! spineMesh sd) = 1 - (?now - startTime sd) / fadeDuration sd"
  proof
    fix sd assume "sd \<in> set (activeSpines ?g)"
    then have m: "sd \<in> set (activeSpines ?h)" and l: "?now - startTime sd < fadeDuration sd"
      unfolding act by simp_all
    show "?now - startTime sd < fadeDuration sd
          \<and> opacity (spineMeshes ?g ! spineMesh sd) = 1 - (?now - startTime sd) / fadeDuration sd"
      using l aged_mesh [OF wh m, of ?now] unfolding st by simp
  qed
  have gone: "\<forall>sd \<in> set (activeSpines ?h).
          fadeDuration sd \<le> ?now - startTime sd \<longrightarrow>
            sd \<notin> set (activeSpines ?g)
            \<and> \<not> attached (spineMeshes ?g ! spineMesh sd)
            \<and> disposed (spineMeshes ?g ! spineMesh sd)"
  proof (intro ballI impI)
    fix sd assume m: "sd \<in> set (activeSpines ?h)" and e: "fadeDuration sd \<le> ?now - startTime sd"
    have "sd \<notin> set (activeSpines ?g)" using e unfolding act by simp
    then show "sd \<notin> set (activeSpines ?g)
            \<and> \<not> attached (spineMeshes ?g ! spineMesh sd)
            \<and> disposed (spineMeshes ?g ! spineMesh sd)"
      using e aged_mesh [OF wh m, of ?now] unfolding st by simp
  qed
  have wg: "spinesWellFormed ?g"
    using wf_agingPhase [OF wh, of ?now]
    by (simp add: spinesWellFormed_def RanchGame_update_def)
  have d1: "activeSpines (RanchGame_dispose g) = []"
    by (simp add: RanchGame_dispose_def)
  have d2: "\<forall>sd \<in> set (activeSpines g).
          \<not> attached (spineMeshes (RanchGame_dispose g) ! spineMesh sd)
          \<and> disposed (spineMeshes (RanchGame_dispose g) ! spineMesh sd)"
  proof
    fix sd assume m: "sd \<in> set (activeSpines g)"
    then have "spineMesh sd < length (spineMeshes g)"
      using wf by (simp add: spinesWellFormed_def)
    then show "\<not> attached (spineMeshes (RanchGame_dispose g) ! spineMesh sd)
          \<and> disposed (spineMeshes (RanchGame_dispose g) ! spineMesh sd)"
      using released_all [OF m] by (simp add: RanchGame_dispose_def)
  qed
  from act sub live gone wg d1 d2
  show "activeSpines ?g
       = filter (\<lambda>sd. ?now - startTime sd < fadeDuration sd) (activeSpines ?h)
     \<and> set (activeSpines g) \<subseteq> set (activeSpines ?h)
     \<and> (\<forall>sd \<in> set (activeSpines ?g).
          ?now - startTime sd < fadeDuration sd
          \<and> opacity (spineMeshes ?g ! spineMesh sd) = 1 - (?now - startTime sd) / fadeDuration sd)
     \<and> (\<forall>sd \<in> set (activeSpines ?h).
          fadeDuration sd \<le> ?now - startTime sd \<longrightarrow>
            sd \<notin> set (activeSpines ?g)
            \<and> \<not> attached (spineMeshes ?g ! spineMesh sd)
            \<and> disposed (spineMeshes ?g ! spineMesh sd))
     \<and> spinesWellFormed ?g
     \<and> activeSpines (RanchGame_dispose g) = []
     \<and> (\<forall>sd \<in> set (activeSpines g).
          \<not> attached (spineMeshes (RanchGame_dispose g) ! spineMesh sd)
          \<and> disposed (spineMeshes (RanchGame_dispose g) ! spineMesh sd))"
    by blast
qed


theorem spines_aged_each_tick_witness:
  "spinesWellFormed sampleGame
   \<and> \<lparr>spineMesh = 0, startTime = 0, fadeDuration = 3000\<rparr> \<in> set (activeSpines sampleGame)
   \<and> \<lparr>spineMesh = 1, startTime = 2000, fadeDuration = 3000\<rparr> \<in> set (activeSpines sampleGame)
   \<and> agingNow sampleEnv = 3500
   \<and> \<lparr>spineMesh = 0, startTime = 0, fadeDuration = 3000\<rparr>
       \<notin> set (activeSpines (RanchGame_update 0.016 sampleEnv sampleGame))
   \<and> \<not> attached (spineMeshes (RanchGame_update 0.016 sampleEnv sampleGame) ! 0)
   \<and> disposed (spineMeshes (RanchGame_update 0.016 sampleEnv sampleGame) ! 0)
   \<and> \<lparr>spineMesh = 1, startTime = 2000, fadeDuration = 3000\<rparr>
       \<in> set (activeSpines (RanchGame_update 0.016 sampleEnv sampleGame))
   \<and> opacity (spineMeshes (RanchGame_update 0.016 sampleEnv sampleGame) ! 1) = 0.5
   \<and> activeSpines (RanchGame_dispose sampleGame) = []
   \<and> disposed (spineMeshes (RanchGame_dispose sampleGame) ! 1)"
proof -
  let ?g = "RanchGame_update 0.016 sampleEnv sampleGame"
  let ?h = "hazardPhase 0.016 sampleEnv sampleGame"
  let ?old = "\<lparr>spineMesh = 0, startTime = 0, fadeDuration = 3000\<rparr>"
  let ?young = "\<lparr>spineMesh = 1, startTime = 2000, fadeDuration = 3000\<rparr>"
  have wf: "spinesWellFormed sampleGame"
    by (simp add: spinesWellFormed_def sampleGame_def)
  have m: "?old \<in> set (activeSpines sampleGame)" "?young \<in> set (activeSpines sampleGame)"
    by (simp_all add: sampleGame_def)
  have n: "agingNow sampleEnv = 3500"
    by (simp add: sampleEnv_def)
  have a: "activeSpines ?g
      = filter (\<lambda>sd. agingNow sampleEnv - startTime sd < fadeDuration sd) (activeSpines ?h)"
    and b: "set (activeSpines sampleGame) \<subseteq> set (activeSpines ?h)"
    and c: "\<forall>sd \<in> set (activeSpines ?g).
          agingNow sampleEnv - startTime sd < fadeDuration sd
          \<and> opacity (spineMeshes ?g ! spineMesh sd)
              = 1 - (agingNow sampleEnv - startTime sd) / fadeDuration sd"
    and d: "\<forall>sd \<in> set (activeSpines ?h).
          fadeDuration sd \<le> agingNow sampleEnv - startTime sd \<longrightarrow>
            sd \<notin> set (activeSpines ?g)
            \<and> \<not> attached (spineMeshes ?g ! spineMesh sd)
            \<and> disposed (spineMeshes ?g ! spineMesh sd)"
    and e: "activeSpines (RanchGame_dispose sampleGame) = []"
    and f: "\<forall>sd \<in> set (activeSpines sampleGame).
          \<not> attached (spineMeshes (RanchGame_dispose sampleGame) ! spineMesh sd)
          \<and> disposed (spineMeshes (RanchGame_dispose sampleGame) ! spineMesh sd)"
    using spines_aged_each_tick [of sampleGame "0.016" sampleEnv] wf by blast+
  have mh: "?old \<in> set (activeSpines ?h)" "?young \<in> set (activeSpines ?h)"
    using b m by blast+
  have old: "?old \<notin> set (activeSpines ?g) \<and> \<not> attached (spineMeshes ?g ! 0)
      \<and> disposed (spineMeshes ?g ! 0)"
    using d [rule_format, OF mh(1)] n by simp
  have my: "?young \<in> set (activeSpines ?g)"
    unfolding a using mh(2) n by simp
  have young: "opacity (spineMeshes ?g ! 1) = 0.5"
    using c [rule_format, OF my] n by simp
  have rel: "disposed (spineMeshes (RanchGame_dispose sampleGame) ! 1)"
    using f [rule_format, OF m(2)] by simp
  from wf m n old my young e rel show ?thesis by simp
qed

subsection \<open>C10\<close>

text \<open>
  C10.  The ranch controller clamps to the fixed ground plane \<open>groundY = 0.3\<close>.  With
  \<open>q\<close> the state after cooldown, input and gravity integration of a tick: the tick ends
  with \<open>position.y \<ge> 0.3\<close>; \<open>onGround\<close> is true exactly when \<open>q\<close> was at or below
  \<open>groundY\<close>, and then the height is exactly \<open>groundY\<close> and \<open>velocity.y\<close> is \<open>0\<close>;
  otherwise position and velocity are those of \<open>q\<close>.  There is no death floor:
  \<open>applyPhysics\<close> only adds the new \<open>velocity.y\<close> to \<open>position.y\<close>, and the position
  after the tick is the position after \<open>handleInput\<close> with its height replaced by the
  larger of \<open>groundY\<close> and the integrated height \<open>y + v + gravity\<close> (\<open>v\<close> being
  \<open>jumpForce\<close> on a jump and the old \<open>velocity.y\<close> otherwise).  So a player however far
  below the ground keeps its \<open>x\<close> and \<open>z\<close> and is put on the plane, never moved to a
  spawn point.
\<close>

theorem update_ground_clamp:
  "groundY = 0.3
   \<and> 0.3 \<le> vy (position (update deltaTime inp p))
   \<and> onGround (update deltaTime inp p)
       = (vy (position (applyPhysics (handleInput inp (tickCooldown deltaTime p)))) \<le> groundY)
   \<and> (onGround (update deltaTime inp p) \<longrightarrow>
        vy (position (update deltaTime inp p)) = groundY
        \<and> vy (velocity (update deltaTime inp p)) = 0)
   \<and> (\<not> onGround (update deltaTime inp p) \<longrightarrow>
        position (update deltaTime inp p)
          = position (applyPhysics (handleInput inp (tickCooldown deltaTime p)))
        \<and> velocity (update deltaTime inp p)
          = velocity (applyPhysics (handleInput inp (tickCooldown deltaTime p))))
   \<and> vx (position (update deltaTime inp p))
       = vx (position (applyPhysics (handleInput inp (tickCooldown deltaTime p))))
   \<and> vz (position (update deltaTime inp p))
       = vz (position (applyPhysics (handleInput inp (tickCooldown deltaTime p))))
   \<and> position (applyPhysics q)
       = (position q)\<lparr>vy := vy (position q) + (vy (velocity q) + gravity)\<rparr>
   \<and> position (update deltaTime inp p)
       = (position (handleInput inp p))
           \<lparr>vy := max groundY
              (vy (position p)
               + ((if shouldJump inp \<and> onGround p then jumpForce else vy (velocity p))
                  + gravity))\<rparr>
   \<and> onGround (update deltaTime inp p)
       = (vy (position p)
          + ((if shouldJump inp \<and> onGround p then jumpForce else vy (velocity p)) + gravity)
          \<le> groundY)
   \<and> (vlength (moveDirectionOf inp) = 0 \<longrightarrow>
        position (update deltaTime inp p)
          = (position p)
              \<lparr>vy := max groundY
                 (vy (position p)
                  + ((if shouldJump inp \<and> onGround p then jumpForce else vy (velocity p))
                     + gravity))\<rparr>)"
proof -
  have old: "groundY = 0.3
   \<and> 0.3 \<le> vy (position (update deltaTime inp p))
   \<and> onGround (update deltaTime inp p)
       = (vy (position (applyPhysics (handleInput inp (tickCooldown deltaTime p)))) \<le> groundY)
   \<and> (onGround (update deltaTime inp p) \<longrightarrow>
        vy (position (update deltaTime inp p)) = groundY
        \<and> vy (velocity (update deltaTime inp p)) = 0)
   \<and> (\<not> onGround (update deltaTime inp p) \<longrightarrow>
        position (update deltaTime inp p)
          = position (applyPhysics (handleInput inp (tickCooldown deltaTime p)))
        \<and> velocity (update deltaTime inp p)
          = velocity (applyPhysics (handleInput inp (tickCooldown deltaTime p))))
   \<and> vx (position (update deltaTime inp p))
       = vx (position (applyPhysics (handleInput inp (tickCooldown deltaTime p))))
   \<and> vz (position (update deltaTime inp p))
       = vz (position (applyPhysics (handleInput inp (tickCooldown deltaTime p))))"
    by (simp add: update_def updateCamera_def checkGroundCollision_def groundY_def Let_def)
  have ph: "position (applyPhysics q)
       = (position q)\<lparr>vy := vy (position q) + (vy (velocity q) + gravity)\<rparr>"
    by (rule position_applyPhysics)
  have pu: "position (update deltaTime inp p)
       = (position (handleInput inp p))
           \<lparr>vy := max groundY
              (vy (position p)
               + ((if shouldJump inp \<and> onGround p then jumpForce else vy (velocity p))
                  + gravity))\<rparr>"
    by (rule position_update)
  have og: "onGround (update deltaTime inp p)
       = (vy (position p)
          + ((if shouldJump inp \<and> onGround p then jumpForce else vy (velocity p)) + gravity)
          \<le> groundY)"
    unfolding vertical_update(3) vy_integrated(1) ..
  have still: "vlength (moveDirectionOf inp) = 0 \<longrightarrow>
        position (update deltaTime inp p)
          = (position p)
              \<lparr>vy := max groundY
                 (vy (position p)
                  + ((if shouldJump inp \<and> onGround p then jumpForce else vy (velocity p))
                     + gravity))\<rparr>"
    using pu position_handleInput_still [of inp p] by simp
  from old ph pu og still show ?thesis by blast
qed

theorem update_ground_clamp_witness:
  "onGround (update 0 noInput newCowboyPlayer)
   \<and> vy (position (update 0 noInput newCowboyPlayer)) = 0.3
   \<and> vy (velocity (update 0 noInput newCowboyPlayer)) = 0
   \<and> \<not> onGround (update 0 noInput (newCowboyPlayer\<lparr>position := \<lparr>vx = 0, vy = 2, vz = 0\<rparr>\<rparr>))
   \<and> vy (position (update 0 noInput (newCowboyPlayer\<lparr>position := \<lparr>vx = 0, vy = 2, vz = 0\<rparr>\<rparr>)))
       = 1.985
   \<and> vlength (moveDirectionOf noInput) = 0
   \<and> position (update 0.016 noInput (newCowboyPlayer\<lparr>position := \<lparr>vx = 7, vy = - 20, vz = 9\<rparr>\<rparr>))
       = \<lparr>vx = 7, vy = 0.3, vz = 9\<rparr>
   \<and> onGround (update 0.016 noInput (newCowboyPlayer\<lparr>position := \<lparr>vx = 7, vy = - 20, vz = 9\<rparr>\<rparr>))
   \<and> vy (velocity (update 0.016 noInput
        (newCowboyPlayer\<lparr>position := \<lparr>vx = 7, vy = - 20, vz = 9\<rparr>\<rparr>))) = 0"
proof -
  let ?deep = "newCowboyPlayer\<lparr>position := \<lparr>vx = 7, vy = - 20, vz = 9\<rparr>\<rparr>"
  have n: "\<not> shouldJump noInput"
    by (simp add: shouldJump_def noInput_def)
  have s: "vlength (moveDirectionOf noInput) = 0"
    by (simp add: moveDirectionOf_def noInput_def vlength_def)
  have a: "vy (position (applyPhysics (handleInput noInput (tickCooldown 0 newCowboyPlayer))))
      = 0.285"
    using n by (simp add: vy_integrated newCowboyPlayer_def gravity_def groundY_def)
  have b: "vy (position (applyPhysics (handleInput noInput
      (tickCooldown 0 (newCowboyPlayer\<lparr>position := \<lparr>vx = 0, vy = 2, vz = 0\<rparr>\<rparr>))))) = 1.985"
    using n by (simp add: vy_integrated newCowboyPlayer_def gravity_def)
  have g: "groundY = 0.3"
    by (simp add: groundY_def)
  have f1: "onGround (update 0 noInput newCowboyPlayer)"
    using update_ground_clamp [of 0 noInput newCowboyPlayer newCowboyPlayer] a g by simp
  have f2: "vy (position (update 0 noInput newCowboyPlayer)) = groundY
      \<and> vy (velocity (update 0 noInput newCowboyPlayer)) = 0"
    using update_ground_clamp [of 0 noInput newCowboyPlayer newCowboyPlayer] f1 by blast
  have first: "onGround (update 0 noInput newCowboyPlayer)
   \<and> vy (position (update 0 noInput newCowboyPlayer)) = 0.3
   \<and> vy (velocity (update 0 noInput newCowboyPlayer)) = 0"
    using f1 f2 g by simp
  let ?high = "newCowboyPlayer\<lparr>position := \<lparr>vx = 0, vy = 2, vz = 0\<rparr>\<rparr>"
  have s1: "\<not> onGround (update 0 noInput ?high)"
    using update_ground_clamp [of 0 noInput ?high ?high] b g by simp
  have s2: "position (update 0 noInput ?high)
      = position (applyPhysics (handleInput noInput (tickCooldown 0 ?high)))"
    using update_ground_clamp [of 0 noInput ?high ?high] s1 by blast
  have second: "\<not> onGround (update 0 noInput ?high)
   \<and> vy (position (update 0 noInput ?high)) = 1.985"
    using s1 s2 b by simp
  have d: "position ?deep = \<lparr>vx = 7, vy = - 20, vz = 9\<rparr>" "vy (velocity ?deep) = 0"
    by (simp_all add: newCowboyPlayer_def)
  have m: "max groundY (vy (position ?deep)
      + ((if shouldJump noInput \<and> onGround ?deep then jumpForce else vy (velocity ?deep))
         + gravity)) = 0.3"
    "vy (position ?deep)
      + ((if shouldJump noInput \<and> onGround ?deep then jumpForce else vy (velocity ?deep))
         + gravity) \<le> groundY"
    using n d by (simp_all add: groundY_def gravity_def)
  have pos0: "position (update 0.016 noInput ?deep)
      = (position ?deep)\<lparr>vy := max groundY (vy (position ?deep)
          + ((if shouldJump noInput \<and> onGround ?deep then jumpForce else vy (velocity ?deep))
             + gravity))\<rparr>"
    using update_ground_clamp [of "0.016" noInput ?deep ?deep] s by blast
  have og0: "onGround (update 0.016 noInput ?deep)
      = (vy (position ?deep)
          + ((if shouldJump noInput \<and> onGround ?deep then jumpForce else vy (velocity ?deep))
             + gravity) \<le> groundY)"
    using update_ground_clamp [of "0.016" noInput ?deep ?deep] by blast
  have og: "onGround (update 0.016 noInput ?deep)"
    using og0 m(2) by blast
  have vel: "vy (velocity (update 0.016 noInput ?deep)) = 0"
    using update_ground_clamp [of "0.016" noInput ?deep ?deep] og by blast
  have pos': "position (update 0.016 noInput ?deep) = \<lparr>vx = 7, vy = 0.3, vz = 9\<rparr>"
    unfolding pos0 m(1) using d by simp
  from first second s pos' og vel show ?thesis by simp
qed

end
